theory Spec2Isabelle
  imports Complex_Main "HOL-Library.Multiset"
begin

section \<open>The classification script \<^verbatim>\<open>tools/classify.py\<close>\<close>

text \<open>
  The script is one linear procedure: \<^verbatim>\<open>PreprocessImage\<close>, the network's forward pass,
  \<^verbatim>\<open>LoadLabelMaps\<close> and the loop that prints the top predictions. The functions of the
  script are embedded below under their own names. What the script calls in TensorFlow,
  NumPy and the operating system is not part of the repository; those calls are either
  parameters of the model (the record \<open>tf_library\<close>) or are written out from their
  documented behaviour, and each such place says so.

  A finite floating-point number is modelled by the rational number it denotes, so
  comparing two scores and rendering a score in decimal are exact in the model. The
  arithmetic of \<^verbatim>\<open>PreprocessImage\<close> is single-precision arithmetic and is modelled with its
  rounding. NaN, infinities and overflow are not modelled.
\<close>

type_synonym py_float = rat

subsection \<open>Errors and observable events\<close>

text \<open>
  Every way the script can stop early is a value: \<^verbatim>\<open>sys.exit(1)\<close> and the exceptions
  that the script never catches. What the script does that a user can observe is a list
  of events, in the order they happen.
\<close>

datatype error =
    SysExit int
  | IndexError
  | NotFoundError string
  | RestoreError
  | InvalidArgumentError

datatype event =
    LogFatal string
  | RunInference
  | Print string

type_synonym 'a outcome = "event list \<times> (error + 'a)"

type_synonym filesystem = "string \<rightharpoonup> string"

subsection \<open>Python's string operations\<close>

definition newline :: char where
  "newline = CHR 0x0A"

text \<open>\<^verbatim>\<open>readlines()\<close>: the content cut after every newline, each line keeping its newline; a
  last line without newline is a line too.\<close>

fun readlines :: "string \<Rightarrow> string list" where
  "readlines [] = []"
| "readlines (c # cs) =
     (if c = newline then [c] # readlines cs
      else (case readlines cs of [] \<Rightarrow> [[c]] | l # ls \<Rightarrow> (c # l) # ls))"

text \<open>The characters \<^verbatim>\<open>str.rstrip()\<close> removes when it is given no argument: tab, line
  feed, vertical tab, form feed, carriage return and space.\<close>

definition is_space :: "char \<Rightarrow> bool" where
  "is_space c = (c \<in> set [CHR 0x09, CHR 0x0A, CHR 0x0B, CHR 0x0C, CHR 0x0D, CHR 0x20])"

definition rstrip :: "string \<Rightarrow> string" where
  "rstrip s = rev (dropWhile is_space (rev s))"

text \<open>\<^verbatim>\<open>word.strip(chars)\<close> removes the given characters from both ends.\<close>

definition strip_chars :: "string \<Rightarrow> string \<Rightarrow> string" where
  "strip_chars chars s =
     rev (dropWhile (\<lambda>c. c \<in> set chars) (rev (dropWhile (\<lambda>c. c \<in> set chars) s)))"

text \<open>\<^verbatim>\<open>line.split(sep, 1)\<close>: at most one split, at the first separator.\<close>

definition split1 :: "char \<Rightarrow> string \<Rightarrow> string list" where
  "split1 sep s =
     (if sep \<in> set s
      then [takeWhile (\<lambda>c. c \<noteq> sep) s, tl (dropWhile (\<lambda>c. c \<noteq> sep) s)]
      else [s])"

definition digit :: "nat \<Rightarrow> char" where
  "digit d = ''0123456789'' ! d"

text \<open>\<^verbatim>\<open>'{}'.format(k)\<close> for an integer.\<close>

fun str_nat :: "nat \<Rightarrow> string" where
  "str_nat k = (if k < 10 then [digit k] else str_nat (k div 10) @ [digit (k mod 10)])"

declare str_nat.simps [simp del]

definition str_int :: "int \<Rightarrow> string" where
  "str_int i = (if i < 0 then ''-'' @ str_nat (nat (- i)) else str_nat (nat i))"

text \<open>\<^verbatim>\<open>'{:.2f}'.format(score)\<close>: the exact value of the float, correctly rounded to two
  decimals, ties to even.\<close>

definition round_half_even :: "rat \<Rightarrow> int" where
  "round_half_even r =
     (let f = \<lfloor>r\<rfloor>; d = r - of_int f
      in if d < 1 / 2 then f else if 1 / 2 < d then f + 1 else if even f then f else f + 1)"

definition format_score :: "py_float \<Rightarrow> string" where
  "format_score x =
     (let h = nat (round_half_even (\<bar>x\<bar> * 100))
      in (if x < 0 then ''-'' else []) @ str_nat (h div 100) @ ''.''
           @ [digit (h mod 100 div 10), digit (h mod 10)])"

subsection \<open>Slices and \<^verbatim>\<open>argsort\<close>\<close>

text \<open>\<^verbatim>\<open>a[start:]\<close>: a negative start counts from the end, and either is clipped to the
  list.\<close>

definition slice_from :: "int \<Rightarrow> 'a list \<Rightarrow> 'a list" where
  "slice_from start xs =
     (let len = int (length xs)
      in drop (nat (if start < 0 then max (len + start) 0 else min start len)) xs)"

text \<open>
  NumPy's \<^verbatim>\<open>argsort\<close> returns the indices that sort the array in ascending order; which of
  two equal elements comes first is left to the sorting algorithm. \<open>argsort_ok xs p\<close>
  says that \<open>p\<close> is such a result for \<open>xs\<close>, and \<open>argsort_stable\<close> is one algorithm that
  meets it (NumPy's \<^verbatim>\<open>kind='stable'\<close>).
\<close>

definition argsort_ok :: "py_float list \<Rightarrow> nat list \<Rightarrow> bool" where
  "argsort_ok xs p = (sort p = [0..<length xs] \<and> sorted (map (\<lambda>i. xs ! i) p))"

definition argsort_stable :: "py_float list \<Rightarrow> nat list" where
  "argsort_stable xs = sort_key (\<lambda>i. xs ! i) [0..<length xs]"

subsection \<open>The library calls the script depends on\<close>

text \<open>
  \<open>lib_argsort\<close> is \<^verbatim>\<open>ndarray.argsort\<close>. \<open>lib_decode_jpeg\<close> is \<^verbatim>\<open>tf.image.decode_jpeg\<close> with
  the cast to \<^verbatim>\<open>float32\<close>, \<open>None\<close> when the data is not a JPEG image, and
  \<open>lib_crop_and_resize\<close> is \<^verbatim>\<open>tf.image.crop_and_resize\<close> to the given size.
  \<open>lib_restore\<close> is \<^verbatim>\<open>saver.restore\<close>: it is given the checkpoint path of the command line,
  which files it reads under that path or with that prefix is its own business, and it
  gives the values of the variables, or \<open>None\<close> when it raises. \<open>lib_predictions\<close> is the
  forward pass of the network with these variables: the one row of \<open>num_classes\<close> scores
  that \<^verbatim>\<open>sess.run(predictions)\<close> returns.
\<close>

record tf_library =
  lib_argsort :: "py_float list \<Rightarrow> nat list"
  lib_decode_jpeg :: "string \<Rightarrow> py_float list option"
  lib_crop_and_resize :: "int \<Rightarrow> py_float list \<Rightarrow> py_float list"
  lib_restore :: "filesystem \<Rightarrow> string \<Rightarrow> string option"
  lib_predictions :: "string \<Rightarrow> int \<Rightarrow> py_float list \<Rightarrow> py_float list"

record flags =
  flag_checkpoint :: string
  flag_labelmap :: string
  flag_dict :: string
  flag_image_size :: int
  flag_num_classes :: int
  flag_n :: int
  flag_image_path :: string

text \<open>\<^verbatim>\<open>tf.gfile.GFile(path).readlines()\<close> raises when there is no such file.\<close>

definition gfile_readlines :: "filesystem \<Rightarrow> string \<Rightarrow> error + string list" where
  "gfile_readlines fs path =
     (case fs path of None \<Rightarrow> Inl (NotFoundError path) | Some content \<Rightarrow> Inr (readlines content))"

subsection \<open>Floating-point rounding\<close>

text \<open>
  An operation on floating-point numbers returns the exact result rounded to the nearest
  number of the format, ties to the one with an even significand (IEEE 754). A format has
  \<open>p\<close> significant bits and a smallest exponent \<open>emin\<close>, below which the spacing of its
  numbers stays the one of \<open>emin\<close>. \<open>exponent_above y\<close> counts the halvings that bring \<open>y\<close>
  below 2, so \<open>float_exponent emin x\<close> is the exponent of \<open>x\<close> in the format, and
  \<open>float_round\<close> rounds to a multiple of the spacing at that exponent. A tensor of type
  \<^verbatim>\<open>tf.float32\<close> holds numbers with 24 significant bits, a Python \<^verbatim>\<open>float\<close> has 53.
\<close>

function exponent_above :: "rat \<Rightarrow> nat" where
  "exponent_above y = (if y < 2 then 0 else Suc (exponent_above (y / 2)))"
  by pat_completeness auto
termination
proof (relation "measure (\<lambda>y. nat \<lfloor>y\<rfloor>)")
  show "wf (measure (\<lambda>y. nat \<lfloor>y\<rfloor>))" by simp
next
  fix y :: rat
  assume "\<not> y < 2"
  then have "2 \<le> y" by simp
  have "of_int \<lfloor>y / 2\<rfloor> \<le> y / 2" by (rule of_int_floor_le)
  also have "\<dots> \<le> y - 1" using \<open>2 \<le> y\<close> by simp
  also have "\<dots> < of_int \<lfloor>y\<rfloor>" by linarith
  finally have "\<lfloor>y / 2\<rfloor> < \<lfloor>y\<rfloor>" by simp
  moreover have "0 < \<lfloor>y\<rfloor>" using \<open>2 \<le> y\<close> by linarith
  ultimately show "(y / 2, y) \<in> measure (\<lambda>y. nat \<lfloor>y\<rfloor>)" by simp
qed

declare exponent_above.simps [simp del]

definition float_exponent :: "int \<Rightarrow> rat \<Rightarrow> int" where
  "float_exponent emin x = emin + int (exponent_above (\<bar>x\<bar> / 2 powi emin))"

definition float_round :: "nat \<Rightarrow> int \<Rightarrow> rat \<Rightarrow> rat" where
  "float_round p emin x =
     (let ulp = 2 powi (float_exponent emin x - int p + 1)
      in of_int (round_half_even (x / ulp)) * ulp)"

definition float32 :: "rat \<Rightarrow> py_float" where
  "float32 = float_round 24 (- 126)"

definition float64 :: "rat \<Rightarrow> py_float" where
  "float64 = float_round 53 (- 1022)"

text \<open>\<^verbatim>\<open>tf.mul\<close> and \<^verbatim>\<open>tf.sub\<close> on one element of a \<^verbatim>\<open>float32\<close> tensor.\<close>

definition tf_mul :: "py_float \<Rightarrow> py_float \<Rightarrow> py_float" where
  "tf_mul x y = float32 (x * y)"

definition tf_sub :: "py_float \<Rightarrow> py_float \<Rightarrow> py_float" where
  "tf_sub x y = float32 (x - y)"

subsection \<open>\<^verbatim>\<open>PreprocessImage\<close>\<close>

text \<open>Lines 88 and 89: \<^verbatim>\<open>tf.mul(img, 1.0/127.5)\<close>, then \<^verbatim>\<open>tf.sub(img, 1.0)\<close>, on every
  element of the tensor. Python computes the quotient \<^verbatim>\<open>1.0/127.5\<close> as a \<^verbatim>\<open>float\<close>, and
  TensorFlow converts a Python constant to the type of the tensor it meets, \<^verbatim>\<open>float32\<close>.\<close>

definition normalize :: "py_float \<Rightarrow> py_float" where
  "normalize v = tf_sub (tf_mul v (float32 (float64 (1.0 / 127.5)))) (float32 1.0)"

text \<open>The operations \<^verbatim>\<open>PreprocessImage\<close> puts into the graph; they run inside
  \<^verbatim>\<open>sess.run\<close>. Decoding raises on data that is not a JPEG image.\<close>

definition PreprocessImage_ops :: "tf_library \<Rightarrow> int \<Rightarrow> string \<Rightarrow> error + py_float list" where
  "PreprocessImage_ops lib image_size img_data =
     (case lib_decode_jpeg lib img_data of
        None \<Rightarrow> Inl InvalidArgumentError
      | Some img \<Rightarrow> Inr (map normalize (lib_crop_and_resize lib image_size img)))"

text \<open>What \<^verbatim>\<open>PreprocessImage\<close> does when it is called: the existence check, whose
  \<^verbatim>\<open>tf.logging.fatal\<close> writes a log record and returns, and the read of the file, which
  raises when the file is missing.\<close>

definition PreprocessImage :: "filesystem \<Rightarrow> string \<Rightarrow> string outcome" where
  "PreprocessImage fs image_path =
     (let logged = (if fs image_path = None
                 then [LogFatal (''Input image does not exist '' @ image_path)] else [])
      in case fs image_path of
           None \<Rightarrow> (logged, Inl (NotFoundError image_path))
         | Some img_data \<Rightarrow> (logged, Inr img_data))"

subsection \<open>\<^verbatim>\<open>LoadLabelMaps\<close>\<close>

text \<open>The loop of lines 109 to 111 over the lines of the dictionary file; \<^verbatim>\<open>words[1]\<close>
  raises \<^verbatim>\<open>IndexError\<close> when the line was not split.\<close>

fun LoadLabelMaps_dict :: "string list \<Rightarrow> (string \<rightharpoonup> string) \<Rightarrow> error + (string \<rightharpoonup> string)" where
  "LoadLabelMaps_dict [] label_dict = Inr label_dict"
| "LoadLabelMaps_dict (line # rest) label_dict =
     (let words = map (strip_chars [CHR 0x20, CHR 0x22, CHR 0x0A]) (split1 CHR '','' line)
      in if length words < 2 then Inl IndexError
         else LoadLabelMaps_dict rest (label_dict(words ! 0 \<mapsto> words ! 1)))"

definition labelmap_message :: "string \<Rightarrow> nat \<Rightarrow> int \<Rightarrow> string" where
  "labelmap_message labelmap_path len num_classes =
     ''Label map loaded from '' @ labelmap_path @ '' contains '' @ str_nat len
       @ '' lines while the number of classes is '' @ str_int num_classes"

definition LoadLabelMaps ::
  "filesystem \<Rightarrow> int \<Rightarrow> string \<Rightarrow> string \<Rightarrow> (string list \<times> (string \<rightharpoonup> string)) outcome" where
  "LoadLabelMaps fs num_classes labelmap_path dict_path =
     (case gfile_readlines fs labelmap_path of
        Inl e \<Rightarrow> ([], Inl e)
      | Inr lines \<Rightarrow>
          (let labelmap = map rstrip lines
           in if int (length labelmap) \<noteq> num_classes
              then ([LogFatal (labelmap_message labelmap_path (length labelmap) num_classes)],
                    Inl (SysExit 1))
              else (case gfile_readlines fs dict_path of
                      Inl e \<Rightarrow> ([], Inl e)
                    | Inr dict_lines \<Rightarrow>
                        (case LoadLabelMaps_dict dict_lines Map.empty of
                           Inl e \<Rightarrow> ([], Inl e)
                         | Inr label_dict \<Rightarrow> ([], Inr (labelmap, label_dict))))))"

subsection \<open>\<^verbatim>\<open>main\<close>: the report\<close>

text \<open>Line 143: \<^verbatim>\<open>predictions_eval.argsort()[-FLAGS.n:][::-1]\<close>.\<close>

definition top_k :: "(py_float list \<Rightarrow> nat list) \<Rightarrow> int \<Rightarrow> py_float list \<Rightarrow> nat list" where
  "top_k argsort n predictions_eval = rev (slice_from (- n) (argsort predictions_eval))"

text \<open>The four values one pass of the loop computes (lines 144 to 147).\<close>

record prediction =
  p_idx :: nat
  p_mid :: string
  p_display_name :: string
  p_score :: py_float

definition loop_body ::
  "string list \<Rightarrow> (string \<rightharpoonup> string) \<Rightarrow> py_float list \<Rightarrow> nat \<Rightarrow> prediction" where
  "loop_body labelmap label_dict predictions_eval idx =
     (let mid = labelmap ! idx;
          display_name = (case label_dict mid of None \<Rightarrow> ''unknown'' | Some name \<Rightarrow> name);
          score = predictions_eval ! idx
      in \<lparr>p_idx = idx, p_mid = mid, p_display_name = display_name, p_score = score\<rparr>)"

text \<open>Line 148: \<^verbatim>\<open>'{}: {} - {} (score = {:.2f})'.format(idx, mid, display_name, score)\<close>.\<close>

definition format_line :: "prediction \<Rightarrow> string" where
  "format_line p =
     str_nat (p_idx p) @ '': '' @ p_mid p @ '' - '' @ p_display_name p
       @ '' (score = '' @ format_score (p_score p) @ '')''"

text \<open>The loop of lines 144 to 148. Indexing a list beyond its end raises
  \<^verbatim>\<open>IndexError\<close>; what was printed before stays printed.\<close>

fun print_loop ::
  "string list \<Rightarrow> (string \<rightharpoonup> string) \<Rightarrow> py_float list \<Rightarrow> nat list \<Rightarrow> unit outcome" where
  "print_loop labelmap label_dict predictions_eval [] = ([], Inr ())"
| "print_loop labelmap label_dict predictions_eval (idx # rest) =
     (if idx < length labelmap \<and> idx < length predictions_eval
      then (case print_loop labelmap label_dict predictions_eval rest of
              (out, r) \<Rightarrow>
                (Print (format_line (loop_body labelmap label_dict predictions_eval idx)) # out, r))
      else ([], Inl IndexError))"

text \<open>Lines 141 to 148: what \<^verbatim>\<open>main\<close> does once it has the score vector, a
  one-dimensional array.\<close>

definition main_report :: "tf_library \<Rightarrow> filesystem \<Rightarrow> flags \<Rightarrow> py_float list \<Rightarrow> unit outcome" where
  "main_report lib fs FLAGS predictions_eval =
     (case LoadLabelMaps fs (flag_num_classes FLAGS) (flag_labelmap FLAGS) (flag_dict FLAGS) of
        (logged, Inl e) \<Rightarrow> (logged, Inl e)
      | (logged, Inr (labelmap, label_dict)) \<Rightarrow>
          (case print_loop labelmap label_dict predictions_eval
                  (top_k (lib_argsort lib) (flag_n FLAGS) predictions_eval) of
             (out, r) \<Rightarrow> (logged @ out, r)))"

subsection \<open>\<^verbatim>\<open>main\<close>\<close>

definition checkpoint_message :: "string \<Rightarrow> string" where
  "checkpoint_message path =
     ''Checkpoint '' @ path @ '' does not exist. Have you download it? See tools/download_data.sh''"

text \<open>Lines 116 to 119: the check that something exists at the checkpoint path. Its
  \<^verbatim>\<open>tf.logging.fatal\<close> writes a log record and returns (line 106 calls \<^verbatim>\<open>sys.exit\<close> itself
  after it), so the script goes on whatever the check finds.\<close>

definition checkpoint_check :: "filesystem \<Rightarrow> string \<Rightarrow> event list" where
  "checkpoint_check fs path =
     (if fs path = None then [LogFatal (checkpoint_message path)] else [])"

text \<open>Line 138: \<^verbatim>\<open>np.squeeze\<close> removes every axis of length one from the array of shape
  \<open>(1, num_classes)\<close> that \<^verbatim>\<open>sess.run\<close> returns: the batch axis, and with one class the class
  axis too, which leaves an array of no dimension.\<close>

datatype ndarray =
    Scalar py_float
  | Vector "py_float list"

definition np_squeeze :: "py_float list \<Rightarrow> ndarray" where
  "np_squeeze row = (case row of [x] \<Rightarrow> Scalar x | _ \<Rightarrow> Vector row)"

text \<open>Lines 141 to 148 on an array of no dimension: \<^verbatim>\<open>argsort\<close> treats it as the array of
  its one element, and \<^verbatim>\<open>predictions_eval[idx]\<close> raises \<^verbatim>\<open>IndexError\<close> in the first pass of
  the loop, before anything is printed.\<close>

definition main_report_scalar :: "tf_library \<Rightarrow> filesystem \<Rightarrow> flags \<Rightarrow> py_float \<Rightarrow> unit outcome" where
  "main_report_scalar lib fs FLAGS x =
     (case LoadLabelMaps fs (flag_num_classes FLAGS) (flag_labelmap FLAGS) (flag_dict FLAGS) of
        (logged, Inl e) \<Rightarrow> (logged, Inl e)
      | (logged, Inr (labelmap, label_dict)) \<Rightarrow>
          (case top_k (lib_argsort lib) (flag_n FLAGS) [x] of
             [] \<Rightarrow> (logged, Inr ())
           | idx # rest \<Rightarrow> (logged, Inl IndexError)))"

definition main_top_n :: "tf_library \<Rightarrow> filesystem \<Rightarrow> flags \<Rightarrow> ndarray \<Rightarrow> unit outcome" where
  "main_top_n lib fs FLAGS predictions_eval =
     (case predictions_eval of
        Vector scores \<Rightarrow> main_report lib fs FLAGS scores
      | Scalar x \<Rightarrow> main_report_scalar lib fs FLAGS x)"

text \<open>
  Lines 116 to 148. \<^verbatim>\<open>saver.restore\<close> (line 135) is given the checkpoint path and raises
  when it cannot restore from it; that is independent of the check of line 116.
  \<^verbatim>\<open>sess.run\<close> is the one inference pass; the image is decoded inside it.
\<close>

definition main :: "tf_library \<Rightarrow> filesystem \<Rightarrow> flags \<Rightarrow> unit outcome" where
  "main lib fs FLAGS =
     (let log0 = checkpoint_check fs (flag_checkpoint FLAGS)
      in case PreprocessImage fs (flag_image_path FLAGS) of
           (log1, Inl e) \<Rightarrow> (log0 @ log1, Inl e)
         | (log1, Inr img_data) \<Rightarrow>
             (case lib_restore lib fs (flag_checkpoint FLAGS) of
                None \<Rightarrow> (log0 @ log1, Inl RestoreError)
              | Some variables \<Rightarrow>
                  (case PreprocessImage_ops lib (flag_image_size FLAGS) img_data of
                     Inl e \<Rightarrow> (log0 @ log1 @ [RunInference], Inl e)
                   | Inr input_image \<Rightarrow>
                       (case main_top_n lib fs FLAGS
                               (np_squeeze
                                  (lib_predictions lib variables (flag_num_classes FLAGS)
                                     input_image)) of
                          (out, r) \<Rightarrow> (log0 @ log1 @ [RunInference] @ out, r)))))"

text \<open>The lines a run printed, in order.\<close>

fun printed :: "event list \<Rightarrow> string list" where
  "printed [] = []"
| "printed (Print s # evs) = s # printed evs"
| "printed (ev # evs) = printed evs"

subsection \<open>A small run\<close>

text \<open>Three classes, a label map, a dictionary that names two of the three mids, and a
  library whose network answers with fixed scores and whose checkpoint is the one file at
  the checkpoint path. The closed theorems below evaluate the script on it.\<close>

definition example_labelmap :: string where
  "example_labelmap =
     ''/m/0jbk'' @ [newline] @ ''/m/04rky'' @ [newline] @ ''/m/01yrx'' @ [newline]"

definition example_dict :: string where
  "example_dict =
     ''/m/0jbk,'' @ [CHR 0x22] @ ''animal'' @ [CHR 0x22, newline]
       @ ''/m/04rky,'' @ [CHR 0x22] @ ''mammal'' @ [CHR 0x22, newline]"

definition example_files :: filesystem where
  "example_files =
     [''model.ckpt'' \<mapsto> ''weights'', ''cat.jpg'' \<mapsto> ''jpeg'',
      ''labelmap.txt'' \<mapsto> example_labelmap, ''dict.csv'' \<mapsto> example_dict]"

definition example_scores :: "py_float list" where
  "example_scores = [47 / 50, 1 / 8, 9 / 10]"

definition example_library :: tf_library where
  "example_library =
     \<lparr>lib_argsort = argsort_stable,
      lib_decode_jpeg = (\<lambda>data. if data = ''jpeg'' then Some [0, 255, 51] else None),
      lib_crop_and_resize = (\<lambda>image_size img. img),
      lib_restore = (\<lambda>fs path. case fs path of
                                   None \<Rightarrow> None
                                 | Some content \<Rightarrow> if content = ''weights'' then Some content else None),
      lib_predictions = (\<lambda>variables num_classes input_image. example_scores)\<rparr>"

text \<open>The same library with a checkpoint format that keeps its data in files named after
  the path, with none at the path itself.\<close>

definition example_library_prefix :: tf_library where
  "example_library_prefix =
     example_library\<lparr>lib_restore := (\<lambda>fs path. fs (path @ ''.index''))\<rparr>"

definition example_files_prefix :: filesystem where
  "example_files_prefix =
     example_files(''model.ckpt'' := None, ''model.ckpt.index'' \<mapsto> ''weights'')"

definition example_flags :: flags where
  "example_flags =
     \<lparr>flag_checkpoint = ''model.ckpt'', flag_labelmap = ''labelmap.txt'',
      flag_dict = ''dict.csv'', flag_image_size = 299, flag_num_classes = 3, flag_n = 2,
      flag_image_path = ''cat.jpg''\<rparr>"


text \<open>The same label map and dictionary under other paths, and other flags around them.\<close>

definition example_files_elsewhere :: filesystem where
  "example_files_elsewhere =
     [''data/labels.txt'' \<mapsto> example_labelmap, ''data/names.csv'' \<mapsto> example_dict]"

definition example_flags_elsewhere :: flags where
  "example_flags_elsewhere =
     \<lparr>flag_checkpoint = ''data/other.ckpt'', flag_labelmap = ''data/labels.txt'',
      flag_dict = ''data/names.csv'', flag_image_size = 224, flag_num_classes = 3, flag_n = 2,
      flag_image_path = ''dog.jpg''\<rparr>"

section \<open>What \<^verbatim>\<open>argsort\<close> guarantees\<close>

lemma argsort_ok_mset: "argsort_ok xs p \<Longrightarrow> mset p = mset [0..<length xs]"
  unfolding argsort_ok_def by (metis mset_sort)

lemma argsort_ok_length: "argsort_ok xs p \<Longrightarrow> length p = length xs"
  by (drule argsort_ok_mset, drule mset_eq_length) simp

lemma argsort_ok_set: "argsort_ok xs p \<Longrightarrow> set p = {0..<length xs}"
  by (drule argsort_ok_mset, drule mset_eq_setD) simp

lemma argsort_ok_distinct: "argsort_ok xs p \<Longrightarrow> distinct p"
  by (drule argsort_ok_mset) (metis distinct_upt mset_eq_imp_distinct_iff)

lemma argsort_ok_sorted: "argsort_ok xs p \<Longrightarrow> sorted (map (\<lambda>i. xs ! i) p)"
  by (simp add: argsort_ok_def)

text \<open>The stable sort of the indices by their scores is a result \<^verbatim>\<open>argsort\<close> may give,
  for every score vector.\<close>

lemma argsort_stable_ok: "argsort_ok xs (argsort_stable xs)"
proof -
  have "sort (sort_key (\<lambda>i. xs ! i) [0..<length xs]) = [0..<length xs]"
    by (rule properties_for_sort) simp_all
  then show ?thesis
    unfolding argsort_ok_def argsort_stable_def by simp
qed

section \<open>The slice of line 143\<close>

lemma slice_from_drop: "\<exists>k. slice_from start xs = drop k xs"
  unfolding slice_from_def Let_def by blast

lemma slice_from_neg: "0 < n \<Longrightarrow> slice_from (- n) xs = drop (length xs - nat n) xs"
  unfolding slice_from_def Let_def by (simp add: nat_diff_distrib' max_def)

lemma slice_from_zero: "slice_from 0 xs = xs"
  unfolding slice_from_def by simp

text \<open>With a positive \<open>n\<close> the slice keeps the last \<open>n\<close> indices of the ascending order
  (all of them when there are fewer): \<open>top_k\<close> has \<open>min n (length xs)\<close> distinct class
  indices, and no class left out scores higher than a class taken.\<close>

lemma top_k_positive:
  assumes ok: "argsort_ok xs (srt xs)" and n: "0 < n"
  shows "length (top_k srt n xs) = min (nat n) (length xs)"
    and "distinct (top_k srt n xs)"
    and "set (top_k srt n xs) \<subseteq> {0..<length xs}"
    and "\<forall>i \<in> set (top_k srt n xs). \<forall>j \<in> {0..<length xs} - set (top_k srt n xs).
           xs ! j \<le> xs ! i"
proof -
  let ?p = "srt xs"
  let ?k = "length ?p - nat n"
  have t: "top_k srt n xs = rev (drop ?k ?p)"
    unfolding top_k_def using n by (simp add: slice_from_neg)
  have len: "length ?p = length xs" by (rule argsort_ok_length [OF ok])
  show "length (top_k srt n xs) = min (nat n) (length xs)"
    unfolding t using len by simp
  show "distinct (top_k srt n xs)"
    unfolding t using argsort_ok_distinct [OF ok] by simp
  show "set (top_k srt n xs) \<subseteq> {0..<length xs}"
    unfolding t using argsort_ok_set [OF ok] set_drop_subset [of ?k ?p] by simp
  have split: "?p = take ?k ?p @ drop ?k ?p" by simp
  have "sorted (map (\<lambda>i. xs ! i) (take ?k ?p) @ map (\<lambda>i. xs ! i) (drop ?k ?p))"
    using argsort_ok_sorted [OF ok] by (metis split map_append)
  then have le: "\<forall>j \<in> set (take ?k ?p). \<forall>i \<in> set (drop ?k ?p). xs ! j \<le> xs ! i"
    by (auto simp: sorted_append)
  have "{0..<length xs} - set (drop ?k ?p) \<subseteq> set (take ?k ?p)"
    using argsort_ok_set [OF ok] by (metis Diff_subset_conv Un_commute order_refl set_append split)
  then show "\<forall>i \<in> set (top_k srt n xs). \<forall>j \<in> {0..<length xs} - set (top_k srt n xs).
      xs ! j \<le> xs ! i"
    unfolding t using le by auto
qed

text \<open>With \<open>n = 0\<close> the slice is \<^verbatim>\<open>[-0:]\<close>, which is \<^verbatim>\<open>[0:]\<close>: nothing is cut off.\<close>

lemma top_k_zero: "top_k srt 0 xs = rev (srt xs)"
  unfolding top_k_def by (simp add: slice_from_zero)

lemma top_k_in_range:
  assumes "argsort_ok xs (srt xs)"
  shows "set (top_k srt n xs) \<subseteq> {0..<length xs}"
proof -
  obtain k where k: "slice_from (- n) (srt xs) = drop k (srt xs)"
    using slice_from_drop by blast
  have "set (drop k (srt xs)) \<subseteq> set (srt xs)" by (rule set_drop_subset)
  then show ?thesis
    unfolding top_k_def k using argsort_ok_set [OF assms] by simp
qed

text \<open>Whatever \<open>n\<close> is, the slice is a tail of the ascending order, so reversed it is
  descending.\<close>

lemma top_k_descending:
  assumes "argsort_ok xs (srt xs)"
  shows "sorted_wrt (\<lambda>i j. xs ! j \<le> xs ! i) (top_k srt n xs)"
proof -
  obtain k where k: "slice_from (- n) (srt xs) = drop k (srt xs)"
    using slice_from_drop by blast
  have "sorted (map (\<lambda>i. xs ! i) (drop k (srt xs)))"
    using argsort_ok_sorted [OF assms] by (simp add: drop_map [symmetric])
  then have "sorted_wrt (\<lambda>i j. xs ! i \<le> xs ! j) (drop k (srt xs))"
    by (simp add: sorted_wrt_map)
  then show ?thesis
    unfolding top_k_def k by (simp add: sorted_wrt_rev)
qed

section \<open>The loop and \<^verbatim>\<open>LoadLabelMaps\<close>, step by step\<close>

lemma print_loop_in_range:
  assumes "\<forall>idx \<in> set t. idx < length labelmap \<and> idx < length xs"
  shows "print_loop labelmap label_dict xs t =
           (map (\<lambda>idx. Print (format_line (loop_body labelmap label_dict xs idx))) t, Inr ())"
  using assms by (induction t) auto

lemma printed_Print: "printed (map (\<lambda>idx. Print (f idx)) t) = map f t"
  by (induction t) auto

lemma printed_append: "printed (evs @ evs') = printed evs @ printed evs'"
  by (induction evs rule: printed.induct) auto

lemma printed_print_loop:
  "printed (fst (print_loop labelmap label_dict xs t)) =
     map (\<lambda>idx. format_line (loop_body labelmap label_dict xs idx))
       (takeWhile (\<lambda>idx. idx < length labelmap \<and> idx < length xs) t)"
  by (induction t) (auto split: prod.splits)

lemma LoadLabelMaps_returns:
  assumes "LoadLabelMaps fs num_classes labelmap_path dict_path = (logged, Inr (labelmap, label_dict))"
  shows "logged = []"
    and "int (length labelmap) = num_classes"
    and "\<exists>content. fs labelmap_path = Some content \<and> labelmap = map rstrip (readlines content)"
    and "\<exists>content. fs dict_path = Some content
           \<and> LoadLabelMaps_dict (readlines content) Map.empty = Inr label_dict"
  using assms unfolding LoadLabelMaps_def gfile_readlines_def Let_def
  by (auto split: option.splits sum.splits if_splits)

lemma main_report_prints:
  assumes load: "LoadLabelMaps fs (flag_num_classes FLAGS) (flag_labelmap FLAGS) (flag_dict FLAGS)
                   = (logged, Inr (labelmap, label_dict))"
    and ok: "argsort_ok xs (lib_argsort lib xs)"
    and len: "int (length xs) = flag_num_classes FLAGS"
  shows "main_report lib fs FLAGS xs =
           (map (\<lambda>idx. Print (format_line (loop_body labelmap label_dict xs idx)))
              (top_k (lib_argsort lib) (flag_n FLAGS) xs), Inr ())"
proof -
  have l: "length labelmap = length xs"
    using LoadLabelMaps_returns(2) [OF load] len by simp
  have "\<forall>idx \<in> set (top_k (lib_argsort lib) (flag_n FLAGS) xs). idx < length labelmap \<and> idx < length xs"
    using top_k_in_range [where srt = "lib_argsort lib" and n = "flag_n FLAGS", OF ok] l by auto
  then have "print_loop labelmap label_dict xs (top_k (lib_argsort lib) (flag_n FLAGS) xs) =
      (map (\<lambda>idx. Print (format_line (loop_body labelmap label_dict xs idx)))
         (top_k (lib_argsort lib) (flag_n FLAGS) xs), Inr ())"
    by (rule print_loop_in_range)
  then show ?thesis
    unfolding main_report_def using load LoadLabelMaps_returns(1) [OF load] by simp
qed

lemma length_split1: "length (split1 sep s) = (if sep \<in> set s then 2 else 1)"
  by (simp add: split1_def)

lemma LoadLabelMaps_dict_returns:
  "(\<forall>line \<in> set lines. CHR '','' \<in> set line)
     \<Longrightarrow> \<exists>result. LoadLabelMaps_dict lines label_dict = Inr result"
  by (induction lines arbitrary: label_dict) (simp_all add: Let_def length_split1)

lemma LoadLabelMaps_dict_raises:
  "(\<exists>line \<in> set lines. CHR '','' \<notin> set line)
     \<Longrightarrow> LoadLabelMaps_dict lines label_dict = Inl IndexError"
  by (induction lines arbitrary: label_dict) (auto simp: Let_def length_split1)

lemma LoadLabelMaps_mismatch:
  assumes "fs labelmap_path = Some content"
    and "int (length (readlines content)) \<noteq> num_classes"
  shows "LoadLabelMaps fs num_classes labelmap_path dict_path =
           ([LogFatal (labelmap_message labelmap_path (length (readlines content)) num_classes)],
            Inl (SysExit 1))"
  using assms unfolding LoadLabelMaps_def gfile_readlines_def Let_def by simp

lemma LoadLabelMaps_missing:
  assumes "fs labelmap_path = None"
  shows "LoadLabelMaps fs num_classes labelmap_path dict_path =
           ([], Inl (NotFoundError labelmap_path))"
  using assms unfolding LoadLabelMaps_def gfile_readlines_def by simp

lemma LoadLabelMaps_match:
  assumes "fs labelmap_path = Some content"
    and "int (length (readlines content)) = num_classes"
  shows "LoadLabelMaps fs num_classes labelmap_path dict_path =
           (case fs dict_path of
              None \<Rightarrow> ([], Inl (NotFoundError dict_path))
            | Some dict_content \<Rightarrow>
                (case LoadLabelMaps_dict (readlines dict_content) Map.empty of
                   Inl e \<Rightarrow> ([], Inl e)
                 | Inr label_dict \<Rightarrow> ([], Inr (map rstrip (readlines content), label_dict))))"
  using assms unfolding LoadLabelMaps_def gfile_readlines_def Let_def
  by (simp split: option.splits sum.splits)

lemma LoadLabelMaps_prints_nothing:
  "printed (fst (LoadLabelMaps fs num_classes labelmap_path dict_path)) = []"
  unfolding LoadLabelMaps_def Let_def by (simp split: sum.splits)

lemma main_report_printed:
  assumes "LoadLabelMaps fs (flag_num_classes FLAGS) (flag_labelmap FLAGS) (flag_dict FLAGS)
             = (logged, r)"
  shows "printed (fst (main_report lib fs FLAGS xs)) =
           (case r of
              Inl e \<Rightarrow> []
            | Inr (labelmap, label_dict) \<Rightarrow>
                map (\<lambda>idx. format_line (loop_body labelmap label_dict xs idx))
                  (takeWhile (\<lambda>idx. idx < length labelmap \<and> idx < length xs)
                     (top_k (lib_argsort lib) (flag_n FLAGS) xs)))"
proof (cases r)
  case (Inl e)
  have "printed logged = []"
    using LoadLabelMaps_prints_nothing
      [of fs "flag_num_classes FLAGS" "flag_labelmap FLAGS" "flag_dict FLAGS"] assms by simp
  with Inl assms show ?thesis unfolding main_report_def by simp
next
  case (Inr pair)
  obtain labelmap label_dict where pair: "pair = (labelmap, label_dict)" by (cases pair)
  have "logged = []" using LoadLabelMaps_returns(1) assms Inr pair by blast
  with Inr pair assms show ?thesis
    unfolding main_report_def
    using printed_print_loop
      [of labelmap label_dict xs "top_k (lib_argsort lib) (flag_n FLAGS) xs"]
    by (simp split: prod.splits)
qed

section \<open>\<^verbatim>\<open>main\<close>, case by case\<close>

lemma checkpoint_check_quiet:
  "printed (checkpoint_check fs path) = []"
  "RunInference \<notin> set (checkpoint_check fs path)"
  unfolding checkpoint_check_def by simp_all

lemma np_squeeze_vector: "length row \<noteq> 1 \<Longrightarrow> np_squeeze row = Vector row"
  unfolding np_squeeze_def by (cases row; cases "tl row") simp_all

lemma np_squeeze_scalar: "np_squeeze [x] = Scalar x"
  unfolding np_squeeze_def by simp

lemma main_image_missing:
  assumes "fs (flag_image_path FLAGS) = None"
  shows "main lib fs FLAGS =
           (checkpoint_check fs (flag_checkpoint FLAGS)
              @ [LogFatal (''Input image does not exist '' @ flag_image_path FLAGS)],
            Inl (NotFoundError (flag_image_path FLAGS)))"
  using assms unfolding main_def PreprocessImage_def Let_def by simp

lemma main_restore_fails:
  assumes "fs (flag_image_path FLAGS) = Some img_data"
    and "lib_restore lib fs (flag_checkpoint FLAGS) = None"
  shows "main lib fs FLAGS = (checkpoint_check fs (flag_checkpoint FLAGS), Inl RestoreError)"
  using assms unfolding main_def PreprocessImage_def Let_def by simp

lemma main_image_malformed:
  assumes "fs (flag_image_path FLAGS) = Some img_data"
    and "lib_restore lib fs (flag_checkpoint FLAGS) = Some variables"
    and "lib_decode_jpeg lib img_data = None"
  shows "main lib fs FLAGS =
           (checkpoint_check fs (flag_checkpoint FLAGS) @ [RunInference],
            Inl InvalidArgumentError)"
  using assms unfolding main_def PreprocessImage_def PreprocessImage_ops_def Let_def by simp

lemma main_infers:
  assumes "fs (flag_image_path FLAGS) = Some img_data"
    and "lib_restore lib fs (flag_checkpoint FLAGS) = Some variables"
    and "lib_decode_jpeg lib img_data = Some img"
  shows "main lib fs FLAGS =
           (checkpoint_check fs (flag_checkpoint FLAGS) @ RunInference #
              fst (main_top_n lib fs FLAGS
                    (np_squeeze (lib_predictions lib variables (flag_num_classes FLAGS)
                       (map normalize (lib_crop_and_resize lib (flag_image_size FLAGS) img))))),
            snd (main_top_n lib fs FLAGS
                    (np_squeeze (lib_predictions lib variables (flag_num_classes FLAGS)
                       (map normalize (lib_crop_and_resize lib (flag_image_size FLAGS) img))))))"
  using assms unfolding main_def PreprocessImage_def PreprocessImage_ops_def Let_def
  by (simp split: prod.splits)

lemma main_report_labelmap_missing:
  assumes "fs (flag_labelmap FLAGS) = None"
  shows "main_report lib fs FLAGS xs = ([], Inl (NotFoundError (flag_labelmap FLAGS)))"
  unfolding main_report_def
    LoadLabelMaps_missing [where fs = fs and labelmap_path = "flag_labelmap FLAGS", OF assms]
  by simp

lemma main_report_labelmap_mismatch:
  assumes "fs (flag_labelmap FLAGS) = Some content"
    and "int (length (readlines content)) \<noteq> flag_num_classes FLAGS"
  shows "main_report lib fs FLAGS xs =
           ([LogFatal (labelmap_message (flag_labelmap FLAGS) (length (readlines content))
               (flag_num_classes FLAGS))], Inl (SysExit 1))"
  unfolding main_report_def
    LoadLabelMaps_mismatch [where fs = fs and labelmap_path = "flag_labelmap FLAGS", OF assms]
  by simp

lemma main_report_scalar_labelmap_missing:
  assumes "fs (flag_labelmap FLAGS) = None"
  shows "main_report_scalar lib fs FLAGS x = ([], Inl (NotFoundError (flag_labelmap FLAGS)))"
  unfolding main_report_scalar_def
    LoadLabelMaps_missing [where fs = fs and labelmap_path = "flag_labelmap FLAGS", OF assms]
  by simp

lemma main_report_scalar_labelmap_mismatch:
  assumes "fs (flag_labelmap FLAGS) = Some content"
    and "int (length (readlines content)) \<noteq> flag_num_classes FLAGS"
  shows "main_report_scalar lib fs FLAGS x =
           ([LogFatal (labelmap_message (flag_labelmap FLAGS) (length (readlines content))
               (flag_num_classes FLAGS))], Inl (SysExit 1))"
  unfolding main_report_scalar_def
    LoadLabelMaps_mismatch [where fs = fs and labelmap_path = "flag_labelmap FLAGS", OF assms]
  by simp

lemma main_top_n_labelmap_missing:
  assumes "fs (flag_labelmap FLAGS) = None"
  shows "main_top_n lib fs FLAGS arr = ([], Inl (NotFoundError (flag_labelmap FLAGS)))"
  unfolding main_top_n_def
  by (cases arr)
     (simp_all add: main_report_labelmap_missing [where fs = fs and FLAGS = FLAGS, OF assms]
        main_report_scalar_labelmap_missing [where fs = fs and FLAGS = FLAGS, OF assms])

lemma main_top_n_labelmap_mismatch:
  assumes "fs (flag_labelmap FLAGS) = Some content"
    and "int (length (readlines content)) \<noteq> flag_num_classes FLAGS"
  shows "main_top_n lib fs FLAGS arr =
           ([LogFatal (labelmap_message (flag_labelmap FLAGS) (length (readlines content))
               (flag_num_classes FLAGS))], Inl (SysExit 1))"
  unfolding main_top_n_def
  by (cases arr)
     (simp_all add: main_report_labelmap_mismatch [where fs = fs and FLAGS = FLAGS, OF assms]
        main_report_scalar_labelmap_mismatch [where fs = fs and FLAGS = FLAGS, OF assms])

text \<open>With one class the array of scores has no dimension, and the run prints nothing: it
  ends in \<^verbatim>\<open>IndexError\<close> when the label map and the dictionary were loaded and \<open>top_k\<close> is not
  empty.\<close>

lemma main_report_scalar_prints_nothing:
  "printed (fst (main_report_scalar lib fs FLAGS x)) = []"
proof -
  have "fst (main_report_scalar lib fs FLAGS x)
        = fst (LoadLabelMaps fs (flag_num_classes FLAGS) (flag_labelmap FLAGS) (flag_dict FLAGS))"
    unfolding main_report_scalar_def by (simp split: prod.splits sum.splits list.splits)
  then show ?thesis by (simp only: LoadLabelMaps_prints_nothing)
qed

lemma main_report_scalar_raises:
  assumes load: "LoadLabelMaps fs (flag_num_classes FLAGS) (flag_labelmap FLAGS) (flag_dict FLAGS)
                   = (logged, Inr (labelmap, label_dict))"
    and ok: "argsort_ok [x] (lib_argsort lib [x])"
    and n: "0 \<le> flag_n FLAGS"
  shows "main_report_scalar lib fs FLAGS x = ([], Inl IndexError)"
proof -
  have "length (lib_argsort lib [x]) = 1" using argsort_ok_length [OF ok] by simp
  then obtain i where i: "lib_argsort lib [x] = [i]"
    by (cases "lib_argsort lib [x]") simp_all
  have "top_k (lib_argsort lib) (flag_n FLAGS) [x] = [i]"
  proof (cases "flag_n FLAGS = 0")
    case True
    then show ?thesis by (simp add: top_k_zero i)
  next
    case False
    with n have "0 < flag_n FLAGS" by simp
    then show ?thesis unfolding top_k_def by (simp add: slice_from_neg i)
  qed
  then show ?thesis
    unfolding main_report_scalar_def using load LoadLabelMaps_returns(1) [OF load] by simp
qed

text \<open>Whatever the inputs, a run either ends before inference, or fails in decoding the
  image, or is what lines 141 to 148 do after one inference pass.\<close>

lemma main_cases:
  obtains (early) "isl (snd (main lib fs FLAGS))" "printed (fst (main lib fs FLAGS)) = []"
      "RunInference \<notin> set (fst (main lib fs FLAGS))"
      "fs (flag_image_path FLAGS) = None \<or> lib_restore lib fs (flag_checkpoint FLAGS) = None"
  | (decode) img_data variables where
      "main lib fs FLAGS =
         (checkpoint_check fs (flag_checkpoint FLAGS) @ [RunInference], Inl InvalidArgumentError)"
      "fs (flag_image_path FLAGS) = Some img_data"
      "lib_restore lib fs (flag_checkpoint FLAGS) = Some variables"
      "lib_decode_jpeg lib img_data = None"
  | (report) img_data variables img arr where
      "main lib fs FLAGS =
         (checkpoint_check fs (flag_checkpoint FLAGS) @ RunInference #
            fst (main_top_n lib fs FLAGS arr), snd (main_top_n lib fs FLAGS arr))"
      "fs (flag_image_path FLAGS) = Some img_data"
      "lib_restore lib fs (flag_checkpoint FLAGS) = Some variables"
      "lib_decode_jpeg lib img_data = Some img"
proof (cases "fs (flag_image_path FLAGS)")
  case None
  from main_image_missing [where fs = fs and FLAGS = FLAGS and lib = lib, OF None] show ?thesis
    by (intro early) (simp_all add: None printed_append checkpoint_check_quiet)
next
  case image: (Some img_data)
  show ?thesis
  proof (cases "lib_restore lib fs (flag_checkpoint FLAGS)")
    case None
    from main_restore_fails [where fs = fs and FLAGS = FLAGS and lib = lib, OF image None]
    show ?thesis
      by (intro early) (simp_all add: None checkpoint_check_quiet)
  next
    case restored: (Some variables)
    show ?thesis
    proof (cases "lib_decode_jpeg lib img_data")
      case None
      from main_image_malformed [where fs = fs and FLAGS = FLAGS and lib = lib, OF image restored None]
        image restored None
      show ?thesis by (rule decode)
    next
      case (Some img)
      from main_infers [where fs = fs and FLAGS = FLAGS and lib = lib, OF image restored Some]
        image restored Some
      show ?thesis by (rule report)
    qed
  qed
qed

section \<open>Rendering a score\<close>

lemma round_half_even_cases:
  "round_half_even r = \<lfloor>r\<rfloor> \<and> r - of_int \<lfloor>r\<rfloor> \<le> 1 / 2
   \<or> round_half_even r = \<lfloor>r\<rfloor> + 1 \<and> 1 / 2 \<le> r - of_int \<lfloor>r\<rfloor>"
  unfolding round_half_even_def Let_def by (simp only: split: if_split) linarith

lemma round_half_even_close: "\<bar>of_int (round_half_even r) - r\<bar> \<le> 1 / 2"
proof -
  have lo: "of_int \<lfloor>r\<rfloor> \<le> r" and hi: "r < of_int \<lfloor>r\<rfloor> + 1" by linarith+
  from round_half_even_cases [of r] show ?thesis
  proof (elim disjE conjE)
    assume "round_half_even r = \<lfloor>r\<rfloor>" and "r - of_int \<lfloor>r\<rfloor> \<le> 1 / 2"
    with lo show ?thesis by simp
  next
    assume a: "round_half_even r = \<lfloor>r\<rfloor> + 1" and b: "1 / 2 \<le> r - of_int \<lfloor>r\<rfloor>"
    have "of_int (round_half_even r) = (of_int \<lfloor>r\<rfloor> :: rat) + 1" unfolding a by simp
    with hi b show ?thesis by linarith
  qed
qed

lemma round_half_even_nonneg: "0 \<le> r \<Longrightarrow> 0 \<le> round_half_even r"
  using round_half_even_cases [of r] by (elim disjE conjE) simp_all


lemma decimal_split: "100 * (h div 100) + 10 * (h mod 100 div 10) + h mod 10 = (h::nat)"
proof -
  have "h mod 100 mod 10 = h mod 10"
    by (rule mod_mod_cancel) simp
  moreover have "10 * (h mod 100 div 10) + h mod 100 mod 10 = h mod 100"
    by (rule mult_div_mod_eq)
  moreover have "100 * (h div 100) + h mod 100 = h"
    by (rule mult_div_mod_eq)
  ultimately show ?thesis by linarith
qed

lemma format_score_two_decimals:
  "\<exists>w a b. a < 10 \<and> b < 10
     \<and> \<bar>of_nat (100 * w + 10 * a + b) / 100 - \<bar>x\<bar>\<bar> \<le> 1 / 200
     \<and> format_score x = (if x < 0 then ''-'' else []) @ str_nat w @ ''.'' @ [digit a, digit b]"
proof -
  define h where "h = nat (round_half_even (\<bar>x\<bar> * 100))"
  define w where "w = h div 100"
  define a where "a = h mod 100 div 10"
  define b where "b = h mod 10"
  have "0 \<le> round_half_even (\<bar>x\<bar> * 100)"
    by (rule round_half_even_nonneg) simp
  then have "(of_nat h :: rat) = of_int (round_half_even (\<bar>x\<bar> * 100))"
    unfolding h_def by simp
  then have "\<bar>of_nat h - \<bar>x\<bar> * 100\<bar> \<le> (1 / 2 :: rat)"
    using round_half_even_close [of "\<bar>x\<bar> * 100"] by simp
  then have close: "\<bar>of_nat h / 100 - \<bar>x\<bar>\<bar> \<le> (1 / 200 :: rat)"
    by linarith
  have "100 * w + 10 * a + b = h"
    unfolding w_def a_def b_def by (rule decimal_split)
  with close have 1: "\<bar>of_nat (100 * w + 10 * a + b) / 100 - \<bar>x\<bar>\<bar> \<le> 1 / 200"
    by simp
  have 2: "a < 10" and 3: "b < 10"
    unfolding a_def b_def by simp_all
  have 4: "format_score x = (if x < 0 then ''-'' else []) @ str_nat w @ ''.'' @ [digit a, digit b]"
    unfolding format_score_def Let_def h_def [symmetric] w_def a_def b_def by (rule refl)
  from 1 2 3 4 show ?thesis by (intro exI conjI)
qed

section \<open>Rounding to a floating-point format\<close>

lemma round_half_even_le:
  assumes a: "r \<le> of_int N"
  shows "round_half_even r \<le> N"
proof -
  from round_half_even_cases [of r] show ?thesis
  proof (elim disjE conjE)
    assume "round_half_even r = \<lfloor>r\<rfloor>"
    moreover have "\<lfloor>r\<rfloor> \<le> N" using floor_mono [OF a] by simp
    ultimately show ?thesis by simp
  next
    assume c: "round_half_even r = \<lfloor>r\<rfloor> + 1" and b: "1 / 2 \<le> r - of_int \<lfloor>r\<rfloor>"
    have "(of_int \<lfloor>r\<rfloor> :: rat) < of_int N" using a b by linarith
    then have "\<lfloor>r\<rfloor> < N" by (simp only: of_int_less_iff)
    then show ?thesis unfolding c by simp
  qed
qed

lemma round_half_even_ge:
  assumes a: "of_int N \<le> r"
  shows "N \<le> round_half_even r"
proof -
  have "N \<le> \<lfloor>r\<rfloor>" using a by (simp add: le_floor_iff)
  with round_half_even_cases [of r] show ?thesis by (elim disjE conjE) simp_all
qed

lemma round_half_even_of_int: "round_half_even (of_int N) = N"
  using round_half_even_le [of "of_int N" N] round_half_even_ge [of N "of_int N"] by simp

lemma round_half_even_near:
  assumes "of_int N \<le> r" and "r < of_int N + 1 / 2"
  shows "round_half_even r = N"
proof -
  have "\<lfloor>r\<rfloor> = N" using assms by (intro floor_unique) simp_all
  then show ?thesis using assms unfolding round_half_even_def Let_def by simp
qed

text \<open>The exponent: \<open>exponent_above y\<close> is the \<open>k\<close> with \<open>2 ^ k \<le> y < 2 ^ (k + 1)\<close>, and \<open>0\<close>
  below \<open>1\<close>.\<close>

lemma exponent_above_eq: "2 ^ k \<le> y \<Longrightarrow> y < 2 ^ Suc k \<Longrightarrow> exponent_above y = k"
proof (induction k arbitrary: y)
  case 0
  then show ?case by (simp add: exponent_above.simps)
next
  case (Suc k)
  have "(1::rat) \<le> 2 ^ k" by simp
  moreover have "2 * 2 ^ k \<le> y" using Suc.prems(1) by simp
  ultimately have "\<not> y < 2" by linarith
  moreover have "exponent_above (y / 2) = k"
    using Suc.prems by (intro Suc.IH) simp_all
  ultimately show ?case by (subst exponent_above.simps) simp
qed

lemma exponent_above_small: "y < 2 \<Longrightarrow> exponent_above y = 0"
  by (simp add: exponent_above.simps)

lemma exponent_above_less: "y < 2 ^ Suc (exponent_above y)"
proof (induction y rule: exponent_above.induct)
  case (1 y)
  show ?case
  proof (cases "y < 2")
    case True
    then show ?thesis by (simp add: exponent_above_small)
  next
    case False
    from 1 [OF False] have "y / 2 < 2 ^ Suc (exponent_above (y / 2))" .
    moreover have "exponent_above y = Suc (exponent_above (y / 2))"
      using False by (subst exponent_above.simps) simp
    ultimately show ?thesis by simp
  qed
qed

lemma exponent_above_ge: "2 \<le> y \<Longrightarrow> 2 ^ exponent_above y \<le> y"
proof (induction y rule: exponent_above.induct)
  case (1 y)
  from "1.prems" have nl: "\<not> y < 2" by simp
  have e: "exponent_above y = Suc (exponent_above (y / 2))"
    using nl by (subst exponent_above.simps) simp
  show ?case
  proof (cases "y / 2 < 2")
    case True
    then have "exponent_above (y / 2) = 0" by (rule exponent_above_small)
    with e "1.prems" show ?thesis by simp
  next
    case False
    then have "2 \<le> y / 2" by simp
    from "1.IH" [OF nl this] have "2 ^ exponent_above (y / 2) \<le> y / 2" .
    with e show ?thesis by simp
  qed
qed

lemma float_exponent_ge: "emin \<le> float_exponent emin x"
  unfolding float_exponent_def by simp

lemma power_int_shift: "(2::rat) powi (a + int k) = 2 powi a * 2 ^ k"
  by (simp add: power_int_add)

lemma float_exponent_upper: "\<bar>x\<bar> < 2 powi (float_exponent emin x + 1)"
proof -
  define y where "y = \<bar>x\<bar> / 2 powi emin"
  have pos: "(0::rat) < 2 powi emin" by simp
  have "y < 2 ^ Suc (exponent_above y)" by (rule exponent_above_less)
  then have "\<bar>x\<bar> < 2 ^ Suc (exponent_above y) * 2 powi emin"
    unfolding y_def using pos by (simp only: pos_divide_less_eq)
  also have "\<dots> = 2 powi (emin + int (Suc (exponent_above y)))"
    by (simp only: power_int_shift mult.commute)
  also have "emin + int (Suc (exponent_above y)) = float_exponent emin x + 1"
    unfolding float_exponent_def y_def by simp
  finally show ?thesis .
qed

lemma float_exponent_lower:
  assumes "float_exponent emin x \<noteq> emin"
  shows "2 powi float_exponent emin x \<le> \<bar>x\<bar>"
proof -
  define y where "y = \<bar>x\<bar> / 2 powi emin"
  have pos: "(0::rat) < 2 powi emin" by simp
  have "exponent_above y \<noteq> 0"
    using assms unfolding float_exponent_def y_def by simp
  then have "\<not> y < 2" using exponent_above_small [of y] by auto
  then have "2 ^ exponent_above y \<le> y" by (intro exponent_above_ge) simp
  then have "2 ^ exponent_above y * 2 powi emin \<le> \<bar>x\<bar>"
    unfolding y_def using pos by (simp only: pos_le_divide_eq)
  also have "2 ^ exponent_above y * 2 powi emin = (2::rat) powi (emin + int (exponent_above y))"
    by (simp only: power_int_shift mult.commute)
  finally show ?thesis unfolding float_exponent_def y_def .
qed

lemma float_exponent_le:
  assumes "\<bar>x\<bar> < 2 powi (k + 1)" and "emin \<le> k"
  shows "float_exponent emin x \<le> k"
proof (rule ccontr)
  assume "\<not> float_exponent emin x \<le> k"
  then have gt: "k + 1 \<le> float_exponent emin x" by simp
  with assms(2) have "float_exponent emin x \<noteq> emin" by simp
  then have "2 powi float_exponent emin x \<le> \<bar>x\<bar>" by (rule float_exponent_lower)
  moreover have "(2::rat) powi (k + 1) \<le> 2 powi float_exponent emin x"
    using gt by (intro power_int_increasing) simp_all
  ultimately show False using assms(1) by linarith
qed

lemma float_exponent_eq:
  assumes "2 powi e \<le> \<bar>x\<bar>" and "\<bar>x\<bar> < 2 powi (e + 1)" and "emin \<le> e"
  shows "float_exponent emin x = e"
proof -
  have le: "float_exponent emin x \<le> e" using assms(2,3) by (rule float_exponent_le)
  have "\<not> float_exponent emin x < e"
  proof
    assume "float_exponent emin x < e"
    then have "float_exponent emin x + 1 \<le> e" by simp
    then have "(2::rat) powi (float_exponent emin x + 1) \<le> 2 powi e"
      by (intro power_int_increasing) simp_all
    with float_exponent_upper [of x emin] assms(1) show False by linarith
  qed
  with le show ?thesis by simp
qed

lemma float_exponent_min:
  assumes "\<bar>x\<bar> < 2 powi (emin + 1)"
  shows "float_exponent emin x = emin"
  using float_exponent_le [where emin = emin and k = emin, OF assms] float_exponent_ge [of emin x] by simp

lemma float_round_eval:
  assumes "2 powi e \<le> \<bar>x\<bar>" and "\<bar>x\<bar> < 2 powi (e + 1)" and "emin \<le> e"
  shows "float_round p emin x
         = of_int (round_half_even (x / 2 powi (e - int p + 1))) * 2 powi (e - int p + 1)"
  unfolding float_round_def Let_def float_exponent_eq [OF assms] ..

lemma float_round_zero: "float_round p emin 0 = 0"
  unfolding float_round_def Let_def using round_half_even_of_int [of 0] by simp

lemma float_round_error:
  "\<bar>float_round p emin x - x\<bar> \<le> 2 powi (float_exponent emin x - int p + 1) / 2"
proof -
  define ulp :: rat where "ulp = 2 powi (float_exponent emin x - int p + 1)"
  have pos: "0 < ulp" unfolding ulp_def by simp
  define r where "r = round_half_even (x / ulp)"
  have "float_round p emin x - x = (of_int r - x / ulp) * ulp"
    unfolding float_round_def Let_def ulp_def [symmetric] r_def using pos
    by (simp add: algebra_simps)
  then have "\<bar>float_round p emin x - x\<bar> = \<bar>of_int r - x / ulp\<bar> * ulp"
    using pos by (simp add: abs_mult)
  also have "\<dots> \<le> (1 / 2) * ulp"
    using round_half_even_close [of "x / ulp"] pos unfolding r_def
    by (intro mult_right_mono) simp_all
  finally show ?thesis unfolding ulp_def by simp
qed

lemma grid_coarser:
  assumes "u \<le> j"
  shows "of_int N * (2::rat) powi j = of_int (N * 2 ^ nat (j - u)) * 2 powi u"
proof -
  have "(2::rat) powi j = 2 powi (u + int (nat (j - u)))" using assms by simp
  also have "\<dots> = 2 powi u * 2 ^ nat (j - u)" by (rule power_int_shift)
  finally show ?thesis by simp
qed

lemma float_round_le_grid:
  assumes "x \<le> of_int N * 2 powi j" and "float_exponent emin x - int p + 1 \<le> j"
  shows "float_round p emin x \<le> of_int N * 2 powi j"
proof -
  define u where "u = float_exponent emin x - int p + 1"
  define M where "M = N * 2 ^ nat (j - u)"
  have pos: "(0::rat) < 2 powi u" by simp
  have g: "of_int N * (2::rat) powi j = of_int M * 2 powi u"
    unfolding M_def using assms(2) unfolding u_def [symmetric] by (rule grid_coarser)
  have "x / 2 powi u \<le> of_int M"
    using assms(1) pos unfolding g by (simp only: pos_divide_le_eq)
  then have "round_half_even (x / 2 powi u) \<le> M" by (rule round_half_even_le)
  then have "(of_int (round_half_even (x / 2 powi u)) :: rat) \<le> of_int M"
    by (simp only: of_int_le_iff)
  then have "of_int (round_half_even (x / 2 powi u)) * 2 powi u \<le> of_int M * (2::rat) powi u"
    using pos by (intro mult_right_mono) simp_all
  then show ?thesis unfolding g float_round_def Let_def u_def .
qed

lemma float_round_ge_grid:
  assumes "of_int N * 2 powi j \<le> x" and "float_exponent emin x - int p + 1 \<le> j"
  shows "of_int N * 2 powi j \<le> float_round p emin x"
proof -
  define u where "u = float_exponent emin x - int p + 1"
  define M where "M = N * 2 ^ nat (j - u)"
  have pos: "(0::rat) < 2 powi u" by simp
  have g: "of_int N * (2::rat) powi j = of_int M * 2 powi u"
    unfolding M_def using assms(2) unfolding u_def [symmetric] by (rule grid_coarser)
  have "of_int M \<le> x / 2 powi u"
    using assms(1) pos unfolding g by (simp only: pos_le_divide_eq)
  then have "M \<le> round_half_even (x / 2 powi u)" by (rule round_half_even_ge)
  then have "(of_int M :: rat) \<le> of_int (round_half_even (x / 2 powi u))"
    by (simp only: of_int_le_iff)
  then have "of_int M * (2::rat) powi u \<le> of_int (round_half_even (x / 2 powi u)) * 2 powi u"
    using pos by (intro mult_right_mono) simp_all
  then show ?thesis unfolding g float_round_def Let_def u_def .
qed

section \<open>The arithmetic of \<^verbatim>\<open>PreprocessImage\<close>\<close>

text \<open>The constant of line 88: \<^verbatim>\<open>1.0/127.5\<close> as a Python \<^verbatim>\<open>float\<close>, then as a \<^verbatim>\<open>float32\<close>. It
  is a little above \<open>1 / 127.5\<close>.\<close>

lemma float64_scale: "float64 (1.0 / 127.5) = 282578800148737 / 36028797018963968"
proof -
  have "float64 (1.0 / 127.5)
        = of_int (round_half_even ((1.0 / 127.5) / 2 powi (- 7 - int 53 + 1))) * 2 powi (- 7 - int 53 + 1)"
    unfolding float64_def by (rule float_round_eval) (code_simp, code_simp, simp)
  also have "\<dots> = 282578800148737 / 36028797018963968" by code_simp
  finally show ?thesis .
qed

lemma float32_scale:
  "float32 (282578800148737 / 36028797018963968) = 8421505 / 1073741824"
proof -
  have "float32 (282578800148737 / 36028797018963968)
        = of_int (round_half_even ((282578800148737 / 36028797018963968) / 2 powi (- 7 - int 24 + 1))) * 2 powi (- 7 - int 24 + 1)"
    unfolding float32_def by (rule float_round_eval) (code_simp, code_simp, simp)
  also have "\<dots> = 8421505 / 1073741824" by code_simp
  finally show ?thesis .
qed

lemma float32_one: "float32 1 = 1"
proof -
  have "float32 1 = of_int (round_half_even (1 / 2 powi (0 - int 24 + 1))) * 2 powi (0 - int 24 + 1)"
    unfolding float32_def by (rule float_round_eval) (code_simp, code_simp, simp)
  also have "\<dots> = 1" by code_simp
  finally show ?thesis .
qed

lemma normalize_eq:
  "normalize v = float32 (float32 (v * (8421505 / 1073741824)) - 1)"
  unfolding normalize_def tf_mul_def tf_sub_def float64_scale float32_scale
  using float32_one by simp

lemma float32_eval:
  assumes "2 powi e \<le> \<bar>x\<bar>" and "\<bar>x\<bar> < 2 powi (e + 1)" and "- 126 \<le> e"
    and "of_int (round_half_even (x / 2 powi (e - 23))) * 2 powi (e - 23) = y"
  shows "float32 x = y"
proof -
  have "e - int 24 + 1 = e - 23" by simp
  with float_round_eval [OF assms(1,2,3), of 24] assms(4) show ?thesis
    unfolding float32_def by simp
qed

lemma float32_zero: "float32 0 = 0"
  unfolding float32_def by (rule float_round_zero)

lemma normalize_0: "normalize 0 = - 1"
proof -
  have "float32 (- 1) = - 1"
    by (rule float32_eval [where e = 0]) (code_simp, code_simp, simp, code_simp)
  then show ?thesis unfolding normalize_eq by (simp add: float32_zero)
qed

lemma normalize_255: "normalize 255 = 1"
proof -
  have "float32 (255 * (8421505 / 1073741824)) = 2"
    by (rule float32_eval [where e = 1]) (code_simp, code_simp, simp, code_simp)
  then show ?thesis unfolding normalize_eq by (simp add: float32_one)
qed

lemma normalize_51: "normalize 51 = - 10066329 / 16777216"
proof -
  have "float32 (51 * (8421505 / 1073741824)) = 6710887 / 16777216"
    by (rule float32_eval [where e = "- 2"]) (code_simp, code_simp, simp, code_simp)
  moreover have "float32 (6710887 / 16777216 - 1) = - 10066329 / 16777216"
    by (rule float32_eval [where e = "- 1"]) (code_simp, code_simp, simp, code_simp)
  ultimately show ?thesis by (simp only: normalize_eq)
qed

lemma normalize_centre: "normalize 127.5 = 0"
proof -
  have "float32 (127.5 * (8421505 / 1073741824)) = 1"
    by (rule float32_eval [where e = 0]) (code_simp, code_simp, simp, code_simp)
  then show ?thesis unfolding normalize_eq by (simp add: float32_zero)
qed

lemma normalize_128: "normalize 128 = 32897 / 8388608"
proof -
  have "float32 (128 * (8421505 / 1073741824)) = 8421505 / 8388608"
    by (rule float32_eval [where e = 0]) (code_simp, code_simp, simp, code_simp)
  moreover have "float32 (8421505 / 8388608 - 1) = 32897 / 8388608"
    by (rule float32_eval [where e = "- 8"]) (code_simp, code_simp, simp, code_simp)
  ultimately show ?thesis by (simp only: normalize_eq)
qed

lemma float32_exponent_le:
  assumes "\<bar>x\<bar> < 2 powi (k + 1)" and "- 126 \<le> k"
  shows "float_exponent (- 126) x \<le> k"
  using assms by (rule float_exponent_le)

lemma float32_scaled_range:
  assumes "0 \<le> v" and "v \<le> 255"
  shows "0 \<le> float32 (v * (8421505 / 1073741824))
         \<and> float32 (v * (8421505 / 1073741824)) \<le> 2"
proof
  define x where "x = v * (8421505 / 1073741824)"
  have x0: "0 \<le> x" unfolding x_def using assms(1) by simp
  have xu: "x \<le> 2147483775 / 1073741824" unfolding x_def using assms(2) by simp
  have "\<bar>x\<bar> < 4" using x0 xu by simp
  also have "(4::rat) = 2 powi (1 + 1)" by code_simp
  finally have e: "float_exponent (- 126) x \<le> 1" by (rule float32_exponent_le) simp
  have "of_int 0 * 2 powi (float_exponent (- 126) x - int 24 + 1) \<le> float_round 24 (- 126) x"
    using x0 by (intro float_round_ge_grid) simp_all
  then show "0 \<le> float32 (v * (8421505 / 1073741824))"
    unfolding float32_def x_def by simp
  show "float32 (v * (8421505 / 1073741824)) \<le> 2"
  proof (cases "x \<le> 2")
    case True
    have "float_round 24 (- 126) x \<le> of_int 1 * 2 powi 1"
      using True e by (intro float_round_le_grid) simp_all
    then show ?thesis unfolding float32_def x_def by simp
  next
    case False
    have p22: "(2::rat) powi (1 - 23) = 1 / 4194304" by code_simp
    have "round_half_even (x / 2 powi (1 - 23)) = 8388608"
      unfolding p22 using False xu by (intro round_half_even_near) simp_all
    then have "of_int (round_half_even (x / 2 powi (1 - 23))) * 2 powi (1 - 23) = (2::rat)"
      unfolding p22 by simp
    moreover have "2 powi 1 \<le> \<bar>x\<bar>" using False by simp
    moreover have "\<bar>x\<bar> < 2 powi (1 + 1)" using x0 xu by simp
    ultimately have "float32 x = 2" by (intro float32_eval [where e = 1]) simp_all
    then show ?thesis unfolding x_def by simp
  qed
qed

lemma float32_unit_range:
  assumes "- 1 \<le> z" and "z \<le> 1"
  shows "- 1 \<le> float32 z \<and> float32 z \<le> 1"
proof
  have "\<bar>z\<bar> < 2" using assms by simp
  also have "(2::rat) = 2 powi (0 + 1)" by simp
  finally have e: "float_exponent (- 126) z \<le> 0" by (rule float32_exponent_le) simp
  have "of_int (- 1) * 2 powi 0 \<le> float_round 24 (- 126) z"
    using assms(1) e by (intro float_round_ge_grid) simp_all
  then show "- 1 \<le> float32 z" unfolding float32_def by simp
  have "float_round 24 (- 126) z \<le> of_int 1 * 2 powi 0"
    using assms(2) e by (intro float_round_le_grid) simp_all
  then show "float32 z \<le> 1" unfolding float32_def by simp
qed

lemma normalize_range:
  assumes "0 \<le> v" and "v \<le> 255"
  shows "- 1 \<le> normalize v \<and> normalize v \<le> 1"
proof -
  from float32_scaled_range [OF assms]
  have "- 1 \<le> float32 (v * (8421505 / 1073741824)) - 1"
    and "float32 (v * (8421505 / 1073741824)) - 1 \<le> 1" by simp_all
  then show ?thesis unfolding normalize_eq by (rule float32_unit_range)
qed

lemma float32_error:
  assumes "\<bar>x\<bar> < 2 powi (k + 1)" and "- 126 \<le> k"
  shows "\<bar>float32 x - x\<bar> \<le> 2 powi (k - 24)"
proof -
  have e: "float_exponent (- 126) x \<le> k" using assms by (rule float32_exponent_le)
  have "\<bar>float32 x - x\<bar> \<le> 2 powi (float_exponent (- 126) x - int 24 + 1) / 2"
    unfolding float32_def by (rule float_round_error)
  also have "\<dots> \<le> 2 powi (k - int 24 + 1) / 2"
    using e by (intro divide_right_mono power_int_increasing) simp_all
  also have "k - int 24 + 1 = (k - 24) + 1" by simp
  also have "(2::rat) powi ((k - 24) + 1) / 2 = 2 powi (k - 24)"
    using power_int_shift [of "k - 24" 1] by simp
  finally show ?thesis .
qed

lemma normalize_error:
  assumes "0 \<le> v" and "v \<le> 255"
  shows "\<bar>normalize v - (v / 127.5 - 1)\<bar> \<le> 1 / 2 ^ 21"
proof -
  define x where "x = v * (8421505 / 1073741824)"
  define y where "y = float32 x"
  have x0: "0 \<le> x" unfolding x_def using assms(1) by simp
  have xu: "x \<le> 2147483775 / 1073741824" unfolding x_def using assms(2) by simp
  have "\<bar>x\<bar> < 4" using x0 xu by simp
  also have "(4::rat) = 2 powi (1 + 1)" by code_simp
  finally have "\<bar>float32 x - x\<bar> \<le> 2 powi (1 - 24)" by (rule float32_error) simp
  also have "(2::rat) powi (1 - 24) = 1 / 8388608" by code_simp
  finally have ex: "\<bar>y - x\<bar> \<le> 1 / 8388608" unfolding y_def .
  have yr: "0 \<le> y \<and> y \<le> 2"
    unfolding y_def x_def using assms by (rule float32_scaled_range)
  then have "\<bar>y - 1\<bar> < 2" by linarith
  also have "(2::rat) = 2 powi (0 + 1)" by simp
  finally have "\<bar>float32 (y - 1) - (y - 1)\<bar> \<le> 2 powi (0 - 24)" by (rule float32_error) simp
  also have "(2::rat) powi (0 - 24) = 1 / 16777216" by code_simp
  finally have ez: "\<bar>float32 (y - 1) - (y - 1)\<bar> \<le> 1 / 16777216" .
  have "x - v / 127.5 = v * (127 / 273804165120)" unfolding x_def by simp
  moreover have "0 \<le> v * (127 / 273804165120)" using assms(1) by simp
  moreover have "v * (127 / 273804165120) \<le> 255 * (127 / 273804165120)"
    using assms(2) by (intro mult_right_mono) simp_all
  ultimately have ec: "\<bar>x - v / 127.5\<bar> \<le> 127 / 1073741824" by simp
  have "normalize v = float32 (y - 1)" unfolding normalize_eq y_def x_def ..
  then have "normalize v - (v / 127.5 - 1)
             = (float32 (y - 1) - (y - 1)) + (y - x) + (x - v / 127.5)" by simp
  then have "\<bar>normalize v - (v / 127.5 - 1)\<bar>
             \<le> \<bar>float32 (y - 1) - (y - 1)\<bar> + \<bar>y - x\<bar> + \<bar>x - v / 127.5\<bar>" by linarith
  with ez ex ec have "\<bar>normalize v - (v / 127.5 - 1)\<bar>
                     \<le> 1 / 16777216 + 1 / 8388608 + 127 / 1073741824" by linarith
  also have "\<dots> \<le> 1 / 2 ^ 21" by simp
  finally show ?thesis .
qed

section \<open>The small run, evaluated\<close>

lemma example_labelmap_lines:
  "map rstrip (readlines example_labelmap) = [''/m/0jbk'', ''/m/04rky'', ''/m/01yrx'']"
  by code_simp

lemma example_dict_lines:
  "readlines example_dict =
     [''/m/0jbk,'' @ [CHR 0x22] @ ''animal'' @ [CHR 0x22, CHR 0x0A],
      ''/m/04rky,'' @ [CHR 0x22] @ ''mammal'' @ [CHR 0x22, CHR 0x0A]]"
  by code_simp

lemma example_label_dict:
  "LoadLabelMaps_dict (readlines example_dict) Map.empty =
     Inr [''/m/0jbk'' \<mapsto> ''animal'', ''/m/04rky'' \<mapsto> ''mammal'']"
  unfolding example_dict_lines
  by (simp add: split1_def strip_chars_def Let_def)

lemma example_load:
  "LoadLabelMaps example_files 3 ''labelmap.txt'' ''dict.csv'' =
     ([], Inr ([''/m/0jbk'', ''/m/04rky'', ''/m/01yrx''],
               [''/m/0jbk'' \<mapsto> ''animal'', ''/m/04rky'' \<mapsto> ''mammal'']))"
proof -
  have f1: "example_files ''labelmap.txt'' = Some example_labelmap"
    by (simp add: example_files_def)
  have f2: "example_files ''dict.csv'' = Some example_dict"
    by (simp add: example_files_def)
  show ?thesis
    unfolding LoadLabelMaps_def gfile_readlines_def f1 f2
    by (simp add: example_labelmap_lines example_label_dict)
qed


lemma example_top_k:
  "top_k (lib_argsort example_library) (flag_n example_flags) example_scores = [0, 2]"
  by code_simp

lemma example_ok: "argsort_ok example_scores (lib_argsort example_library example_scores)"
  by (simp add: example_library_def argsort_stable_ok)

lemma example_len: "int (length example_scores) = flag_num_classes example_flags"
  by (simp add: example_scores_def example_flags_def)

lemma example_load_flags:
  "LoadLabelMaps example_files (flag_num_classes example_flags) (flag_labelmap example_flags)
       (flag_dict example_flags)
     = ([], Inr ([''/m/0jbk'', ''/m/04rky'', ''/m/01yrx''],
                 [''/m/0jbk'' \<mapsto> ''animal'', ''/m/04rky'' \<mapsto> ''mammal'']))"
  using example_load by (simp add: example_flags_def)

lemma example_report:
  "main_report example_library example_files example_flags example_scores =
     ([Print ''0: /m/0jbk - animal (score = 0.94)'',
       Print ''2: /m/01yrx - unknown (score = 0.90)''], Inr ())"
  by code_simp

text \<open>A run of \<^verbatim>\<open>main\<close> on the small example, for every file system that holds the image
  and the checkpoint: one inference pass, then the report on the fixed scores.\<close>

lemma example_main:
  assumes "fs ''cat.jpg'' = Some ''jpeg''" and "fs ''model.ckpt'' = Some ''weights''"
  shows "main example_library fs example_flags =
           (RunInference # fst (main_report example_library fs example_flags example_scores),
            snd (main_report example_library fs example_flags example_scores))"
proof -
  have i: "fs (flag_image_path example_flags) = Some ''jpeg''"
    using assms(1) by (simp add: example_flags_def)
  have r: "lib_restore example_library fs (flag_checkpoint example_flags) = Some ''weights''"
    using assms(2) by (simp add: example_library_def example_flags_def)
  have d: "lib_decode_jpeg example_library ''jpeg'' = Some [0, 255, 51]"
    by (simp add: example_library_def)
  have c: "checkpoint_check fs (flag_checkpoint example_flags) = []"
    using assms(2) by (simp add: checkpoint_check_def example_flags_def)
  have p: "lib_predictions example_library variables num_classes input_image = example_scores"
    for variables num_classes input_image
    by (simp add: example_library_def)
  have s: "np_squeeze example_scores = Vector example_scores"
    by (rule np_squeeze_vector) (simp add: example_scores_def)
  show ?thesis
    unfolding main_infers [where lib = example_library and fs = fs and FLAGS = example_flags, OF i r d]
      c p s main_top_n_def
    by simp
qed

text \<open>The check of line 116 does not stop the run. With a checkpoint whose data is in
  files named after the path, there is nothing at the path itself: the script logs that
  the checkpoint does not exist, and then restores it, runs the network and prints.\<close>

lemma main_checkpoint_prefix:
  "example_files_prefix (flag_checkpoint example_flags) = None
   \<and> main example_library_prefix example_files_prefix example_flags
       = ([LogFatal ''Checkpoint model.ckpt does not exist. Have you download it? See tools/download_data.sh'',
           RunInference,
           Print ''0: /m/0jbk - animal (score = 0.94)'',
           Print ''2: /m/01yrx - unknown (score = 0.90)''], Inr ())"
proof -
  have n: "example_files_prefix (flag_checkpoint example_flags) = None"
    by (simp add: example_files_prefix_def example_flags_def)
  have i: "example_files_prefix (flag_image_path example_flags) = Some ''jpeg''"
    by (simp add: example_files_prefix_def example_files_def example_flags_def)
  have r: "lib_restore example_library_prefix example_files_prefix (flag_checkpoint example_flags)
      = Some ''weights''"
    by (simp add: example_library_prefix_def example_files_prefix_def example_flags_def)
  have d: "lib_decode_jpeg example_library_prefix ''jpeg'' = Some [0, 255, 51]"
    by (simp add: example_library_prefix_def example_library_def)
  have m: "checkpoint_message ''model.ckpt''
      = ''Checkpoint model.ckpt does not exist. Have you download it? See tools/download_data.sh''"
    by code_simp
  have c: "checkpoint_check example_files_prefix (flag_checkpoint example_flags)
      = [LogFatal ''Checkpoint model.ckpt does not exist. Have you download it? See tools/download_data.sh'']"
    unfolding checkpoint_check_def using n m by (simp add: example_flags_def)
  have p: "lib_predictions example_library_prefix variables num_classes input_image = example_scores"
    for variables num_classes input_image
    by (simp add: example_library_prefix_def example_library_def)
  have s: "np_squeeze example_scores = Vector example_scores"
    by (rule np_squeeze_vector) (simp add: example_scores_def)
  have rep: "main_report example_library_prefix example_files_prefix example_flags example_scores =
     ([Print ''0: /m/0jbk - animal (score = 0.94)'',
       Print ''2: /m/01yrx - unknown (score = 0.90)''], Inr ())"
    by code_simp
  have "main example_library_prefix example_files_prefix example_flags
       = ([LogFatal ''Checkpoint model.ckpt does not exist. Have you download it? See tools/download_data.sh'',
           RunInference,
           Print ''0: /m/0jbk - animal (score = 0.94)'',
           Print ''2: /m/01yrx - unknown (score = 0.90)''], Inr ())"
    unfolding main_infers [where lib = example_library_prefix and fs = example_files_prefix
        and FLAGS = example_flags, OF i r d] c p s main_top_n_def
    by (simp add: rep)
  with n show ?thesis by (intro conjI)
qed

section \<open>The claims about the report\<close>

text \<open>
  Claim C1: for every top-N count \<open>n \<ge> 0\<close> the printed indices are the \<open>n\<close> highest-scoring
  classes, so \<open>min n num_classes\<close> lines are printed. The script does this for every
  \<open>n > 0\<close> (\<open>top_k_positive\<close>), and not for \<open>n = 0\<close>: run with \<^verbatim>\<open>--n 0\<close> on three classes
  it prints three lines, one for every class, where the claim and the flag's help text
  (``Number of top predictions to print'') say none.
\<close>

theorem main_report_n_zero_prints_every_class:
  "main_report example_library example_files (example_flags\<lparr>flag_n := 0\<rparr>) example_scores =
     ([Print ''0: /m/0jbk - animal (score = 0.94)'',
       Print ''2: /m/01yrx - unknown (score = 0.90)'',
       Print ''1: /m/04rky - mammal (score = 0.12)''], Inr ())"
  by code_simp

text \<open>
  Claim C2: for a fixed score vector, the class indices of the printed lines are in
  descending order of score: of two consecutive printed indices the first has a score at
  least as high as the second (and so has any earlier index against any later one). This
  holds for every run of the report, for every \<open>n\<close> and for every result \<^verbatim>\<open>argsort\<close> may
  give; the printed indices are the indices of \<open>top_k\<close>, from its start.
\<close>

theorem printed_indices_descending:
  assumes ok: "argsort_ok predictions_eval (lib_argsort lib predictions_eval)"
  shows "\<exists>ps. printed (fst (main_report lib fs FLAGS predictions_eval)) = map format_line ps
           \<and> map p_idx ps
               = take (length ps) (top_k (lib_argsort lib) (flag_n FLAGS) predictions_eval)
           \<and> sorted_wrt (\<lambda>p q. predictions_eval ! p_idx q \<le> predictions_eval ! p_idx p) ps
           \<and> (\<forall>k. Suc k < length ps \<longrightarrow>
                 predictions_eval ! p_idx (ps ! Suc k) \<le> predictions_eval ! p_idx (ps ! k))"
proof -
  let ?t = "top_k (lib_argsort lib) (flag_n FLAGS) predictions_eval"
  let ?desc = "\<lambda>p q. predictions_eval ! p_idx q \<le> predictions_eval ! p_idx p"
  have desc: "sorted_wrt (\<lambda>i j. predictions_eval ! j \<le> predictions_eval ! i) ?t"
    by (rule top_k_descending [where srt = "lib_argsort lib", OF ok])
  obtain logged r where load:
    "LoadLabelMaps fs (flag_num_classes FLAGS) (flag_labelmap FLAGS) (flag_dict FLAGS) = (logged, r)"
    by (cases "LoadLabelMaps fs (flag_num_classes FLAGS) (flag_labelmap FLAGS) (flag_dict FLAGS)")
  note out = main_report_printed [OF load, of lib predictions_eval]
  have "\<exists>ps. printed (fst (main_report lib fs FLAGS predictions_eval)) = map format_line ps
      \<and> map p_idx ps = take (length ps) ?t \<and> sorted_wrt ?desc ps"
  proof (cases r)
    case (Inl e)
    with out have "printed (fst (main_report lib fs FLAGS predictions_eval)) = map format_line []"
      by simp
    then show ?thesis by (intro exI [of _ "[]"]) simp
  next
    case (Inr pair)
    obtain labelmap label_dict where pair: "pair = (labelmap, label_dict)" by (cases pair)
    define t' where "t' = takeWhile (\<lambda>idx. idx < length labelmap \<and> idx < length predictions_eval) ?t"
    define ps where "ps = map (loop_body labelmap label_dict predictions_eval) t'"
    have 1: "printed (fst (main_report lib fs FLAGS predictions_eval)) = map format_line ps"
      using out Inr pair unfolding ps_def t'_def by (simp add: comp_def)
    have idx: "map p_idx ps = t'"
      unfolding ps_def by (simp add: loop_body_def Let_def comp_def)
    have "t' = take (length t') ?t"
      unfolding t'_def by (rule takeWhile_eq_take)
    then have 2: "map p_idx ps = take (length ps) ?t"
      using idx by (simp add: ps_def)
    have "sorted_wrt (\<lambda>i j. predictions_eval ! j \<le> predictions_eval ! i) (take (length t') ?t)"
      using desc by (rule sorted_wrt_take)
    then have "sorted_wrt (\<lambda>i j. predictions_eval ! j \<le> predictions_eval ! i) (map p_idx ps)"
      using \<open>t' = take (length t') ?t\<close> idx by simp
    then have 3: "sorted_wrt ?desc ps"
      by (simp add: sorted_wrt_map)
    from 1 2 3 show ?thesis by blast
  qed
  then obtain ps where ps: "printed (fst (main_report lib fs FLAGS predictions_eval)) = map format_line ps"
      "map p_idx ps = take (length ps) ?t" "sorted_wrt ?desc ps"
    by blast
  from ps(3) have "\<forall>k. Suc k < length ps \<longrightarrow>
      predictions_eval ! p_idx (ps ! Suc k) \<le> predictions_eval ! p_idx (ps ! k)"
    by (simp add: sorted_wrt_iff_nth_less)
  with ps show ?thesis by blast
qed

theorem printed_indices_descending_witness:
  "argsort_ok example_scores (lib_argsort example_library example_scores)
   \<and> top_k (lib_argsort example_library) (flag_n example_flags) example_scores = [0, 2]
   \<and> example_scores ! 2 \<le> example_scores ! 0
   \<and> (\<exists>ps. printed (fst (main_report example_library example_files example_flags
                example_scores)) = map format_line ps
          \<and> map p_idx ps = take (length ps) [0, 2]
          \<and> sorted_wrt (\<lambda>p q. example_scores ! p_idx q \<le> example_scores ! p_idx p) ps
          \<and> (\<forall>k. Suc k < length ps \<longrightarrow>
                example_scores ! p_idx (ps ! Suc k) \<le> example_scores ! p_idx (ps ! k)))"
proof -
  have le: "example_scores ! 2 \<le> example_scores ! 0"
    by (simp add: example_scores_def)
  have ex: "\<exists>ps. printed (fst (main_report example_library example_files example_flags
                example_scores)) = map format_line ps
          \<and> map p_idx ps = take (length ps) [0, 2]
          \<and> sorted_wrt (\<lambda>p q. example_scores ! p_idx q \<le> example_scores ! p_idx p) ps
          \<and> (\<forall>k. Suc k < length ps \<longrightarrow>
                example_scores ! p_idx (ps ! Suc k) \<le> example_scores ! p_idx (ps ! k))"
    using printed_indices_descending
      [where lib = example_library and predictions_eval = example_scores
         and fs = example_files and FLAGS = example_flags, OF example_ok]
    unfolding example_top_k .
  show ?thesis
    by (intro conjI) (rule example_ok example_top_k le ex)+
qed

text \<open>
  Claim C5: every printed prediction whose mid is not a key of the dictionary that
  \<^verbatim>\<open>LoadLabelMaps\<close> returned is displayed under the name \<^verbatim>\<open>unknown\<close>, and every printed
  prediction whose mid is a key is displayed under the dictionary's value for it. The
  printed lines are the renderings of one prediction for each index of \<open>top_k\<close>, in order.
\<close>

theorem display_name_lookup:
  assumes load: "LoadLabelMaps fs (flag_num_classes FLAGS) (flag_labelmap FLAGS) (flag_dict FLAGS)
                   = (logged, Inr (labelmap, label_dict))"
    and ok: "argsort_ok predictions_eval (lib_argsort lib predictions_eval)"
    and len: "int (length predictions_eval) = flag_num_classes FLAGS"
  shows "\<exists>ps. printed (fst (main_report lib fs FLAGS predictions_eval)) = map format_line ps
           \<and> map p_idx ps = top_k (lib_argsort lib) (flag_n FLAGS) predictions_eval
           \<and> (\<forall>p \<in> set ps.
                 p_mid p = labelmap ! p_idx p
               \<and> (label_dict (p_mid p) = None \<longrightarrow> p_display_name p = ''unknown'')
               \<and> (\<forall>name. label_dict (p_mid p) = Some name \<longrightarrow> p_display_name p = name))"
proof -
  let ?t = "top_k (lib_argsort lib) (flag_n FLAGS) predictions_eval"
  let ?ps = "map (loop_body labelmap label_dict predictions_eval) ?t"
  have "printed (fst (main_report lib fs FLAGS predictions_eval)) = map format_line ?ps"
    unfolding main_report_prints [OF load ok len] by (simp add: printed_Print comp_def)
  moreover have "map p_idx ?ps = ?t"
    by (simp add: loop_body_def Let_def comp_def)
  moreover have "\<forall>p \<in> set ?ps.
      p_mid p = labelmap ! p_idx p
    \<and> (label_dict (p_mid p) = None \<longrightarrow> p_display_name p = ''unknown'')
    \<and> (\<forall>name. label_dict (p_mid p) = Some name \<longrightarrow> p_display_name p = name)"
    by (auto simp: loop_body_def Let_def)
  ultimately show ?thesis by blast
qed

theorem display_name_lookup_witness:
  "LoadLabelMaps example_files (flag_num_classes example_flags) (flag_labelmap example_flags)
       (flag_dict example_flags)
     = ([], Inr ([''/m/0jbk'', ''/m/04rky'', ''/m/01yrx''],
                 [''/m/0jbk'' \<mapsto> ''animal'', ''/m/04rky'' \<mapsto> ''mammal'']))
   \<and> argsort_ok example_scores (lib_argsort example_library example_scores)
   \<and> int (length example_scores) = flag_num_classes example_flags
   \<and> (\<exists>ps. printed (fst (main_report example_library example_files example_flags
                example_scores)) = map format_line ps
          \<and> map p_idx ps = [0, 2]
          \<and> map p_display_name ps = [''animal'', ''unknown''])"
proof -
  let ?d = "[''/m/0jbk'' \<mapsto> ''animal'', ''/m/04rky'' \<mapsto> ''mammal'']"
  let ?lm = "[''/m/0jbk'', ''/m/04rky'', ''/m/01yrx'']"
  let ?out = "printed (fst (main_report example_library example_files example_flags example_scores))"
  have "\<exists>ps. ?out = map format_line ps
          \<and> map p_idx ps = [0, 2]
          \<and> (\<forall>p \<in> set ps. p_mid p = ?lm ! p_idx p
               \<and> (?d (p_mid p) = None \<longrightarrow> p_display_name p = ''unknown'')
               \<and> (\<forall>name. ?d (p_mid p) = Some name \<longrightarrow> p_display_name p = name))"
    using display_name_lookup [OF example_load_flags example_ok example_len]
    unfolding example_top_k .
  then obtain ps where ps: "?out = map format_line ps
          \<and> map p_idx ps = [0, 2]
          \<and> (\<forall>p \<in> set ps. p_mid p = ?lm ! p_idx p
               \<and> (?d (p_mid p) = None \<longrightarrow> p_display_name p = ''unknown'')
               \<and> (\<forall>name. ?d (p_mid p) = Some name \<longrightarrow> p_display_name p = name))" ..
  from ps have ps1: "?out = map format_line ps" by (rule conjunct1)
  from ps have ps2: "map p_idx ps = [0, 2]" by (elim conjE)
  from ps have all: "\<forall>p \<in> set ps. p_mid p = ?lm ! p_idx p
               \<and> (?d (p_mid p) = None \<longrightarrow> p_display_name p = ''unknown'')
               \<and> (\<forall>name. ?d (p_mid p) = Some name \<longrightarrow> p_display_name p = name)"
    by (elim conjE)
  from ps2 obtain p q where pq: "ps = [p, q]" and p: "p_idx p = 0" and q: "p_idx q = 2"
    by (auto simp: map_eq_Cons_conv)
  have pin: "p \<in> set ps" and qin: "q \<in> set ps" using pq by simp_all
  have mp: "p_mid p = ''/m/0jbk''" using bspec [OF all pin] p by simp
  have dp: "p_display_name p = ''animal''" using bspec [OF all pin] mp by simp
  have mq: "p_mid q = ''/m/01yrx''" using bspec [OF all qin] q by simp
  have dq: "p_display_name q = ''unknown''" using bspec [OF all qin] mq by simp
  have names: "map p_display_name ps = [''animal'', ''unknown'']"
    by (simp add: pq dp dq)
  show ?thesis
    by (intro conjI exI [of _ ps]) (rule example_load_flags example_ok example_len ps1 ps2 names)+
qed

text \<open>
  Claim C6: for every printed prediction with class index \<open>idx\<close>, the printed mid is the
  entry at position \<open>idx\<close> of the label index list, which is line \<open>idx\<close> (counted from 0) of
  the label-map file with its trailing whitespace stripped; the same \<open>idx\<close> indexes the score
  vector, and the file has one line per score.
\<close>

theorem printed_mid_is_labelmap_line:
  assumes load: "LoadLabelMaps fs (flag_num_classes FLAGS) (flag_labelmap FLAGS) (flag_dict FLAGS)
                   = (logged, Inr (labelmap, label_dict))"
    and lm_file: "fs (flag_labelmap FLAGS) = Some content"
    and ok: "argsort_ok predictions_eval (lib_argsort lib predictions_eval)"
    and len: "int (length predictions_eval) = flag_num_classes FLAGS"
  shows "\<exists>ps. printed (fst (main_report lib fs FLAGS predictions_eval)) = map format_line ps
           \<and> map p_idx ps = top_k (lib_argsort lib) (flag_n FLAGS) predictions_eval
           \<and> length (readlines content) = length predictions_eval
           \<and> (\<forall>p \<in> set ps.
                 p_idx p < length (readlines content)
               \<and> p_mid p = labelmap ! p_idx p
               \<and> labelmap ! p_idx p = rstrip (readlines content ! p_idx p)
               \<and> p_score p = predictions_eval ! p_idx p)"
proof -
  let ?t = "top_k (lib_argsort lib) (flag_n FLAGS) predictions_eval"
  let ?ps = "map (loop_body labelmap label_dict predictions_eval) ?t"
  have lm: "labelmap = map rstrip (readlines content)"
    using LoadLabelMaps_returns(3) [OF load] lm_file by simp
  have n: "length (readlines content) = length predictions_eval"
    using LoadLabelMaps_returns(2) [OF load] len lm by simp
  have range: "\<forall>idx \<in> set ?t. idx < length (readlines content)"
    using top_k_in_range [where srt = "lib_argsort lib" and n = "flag_n FLAGS", OF ok] n by auto
  have "printed (fst (main_report lib fs FLAGS predictions_eval)) = map format_line ?ps"
    unfolding main_report_prints [OF load ok len] by (simp add: printed_Print comp_def)
  moreover have "map p_idx ?ps = ?t"
    by (simp add: loop_body_def Let_def comp_def)
  moreover have "\<forall>p \<in> set ?ps.
        p_idx p < length (readlines content)
      \<and> p_mid p = labelmap ! p_idx p
      \<and> labelmap ! p_idx p = rstrip (readlines content ! p_idx p)
      \<and> p_score p = predictions_eval ! p_idx p"
    using range by (auto simp: loop_body_def Let_def lm)
  ultimately show ?thesis using n by blast
qed

theorem printed_mid_is_labelmap_line_witness:
  "LoadLabelMaps example_files (flag_num_classes example_flags) (flag_labelmap example_flags)
       (flag_dict example_flags)
     = ([], Inr ([''/m/0jbk'', ''/m/04rky'', ''/m/01yrx''],
                 [''/m/0jbk'' \<mapsto> ''animal'', ''/m/04rky'' \<mapsto> ''mammal'']))
   \<and> example_files (flag_labelmap example_flags) = Some example_labelmap
   \<and> argsort_ok example_scores (lib_argsort example_library example_scores)
   \<and> int (length example_scores) = flag_num_classes example_flags
   \<and> (\<exists>ps. printed (fst (main_report example_library example_files example_flags
                example_scores)) = map format_line ps
          \<and> map p_idx ps = [0, 2]
          \<and> map p_mid ps = [''/m/0jbk'', ''/m/01yrx'']
          \<and> map p_score ps = [47 / 50, 9 / 10])"
proof -
  let ?d = "[''/m/0jbk'' \<mapsto> ''animal'', ''/m/04rky'' \<mapsto> ''mammal'']"
  let ?lm = "[''/m/0jbk'', ''/m/04rky'', ''/m/01yrx'']"
  let ?out = "printed (fst (main_report example_library example_files example_flags example_scores))"
  have lm_file: "example_files (flag_labelmap example_flags) = Some example_labelmap"
    by (simp add: example_files_def example_flags_def)
  have "\<exists>ps. ?out = map format_line ps
          \<and> map p_idx ps = [0, 2]
          \<and> length (readlines example_labelmap) = length example_scores
          \<and> (\<forall>p \<in> set ps. p_idx p < length (readlines example_labelmap)
               \<and> p_mid p = ?lm ! p_idx p
               \<and> ?lm ! p_idx p = rstrip (readlines example_labelmap ! p_idx p)
               \<and> p_score p = example_scores ! p_idx p)"
    using printed_mid_is_labelmap_line [OF example_load_flags lm_file example_ok example_len]
    unfolding example_top_k .
  then obtain ps where ps: "?out = map format_line ps
          \<and> map p_idx ps = [0, 2]
          \<and> length (readlines example_labelmap) = length example_scores
          \<and> (\<forall>p \<in> set ps. p_idx p < length (readlines example_labelmap)
               \<and> p_mid p = ?lm ! p_idx p
               \<and> ?lm ! p_idx p = rstrip (readlines example_labelmap ! p_idx p)
               \<and> p_score p = example_scores ! p_idx p)" ..
  from ps have ps1: "?out = map format_line ps" by (rule conjunct1)
  from ps have ps2: "map p_idx ps = [0, 2]" by (elim conjE)
  from ps have all: "\<forall>p \<in> set ps. p_idx p < length (readlines example_labelmap)
               \<and> p_mid p = ?lm ! p_idx p
               \<and> ?lm ! p_idx p = rstrip (readlines example_labelmap ! p_idx p)
               \<and> p_score p = example_scores ! p_idx p"
    by (elim conjE)
  from ps2 obtain p q where pq: "ps = [p, q]" and p: "p_idx p = 0" and q: "p_idx q = 2"
    by (auto simp: map_eq_Cons_conv)
  have pin: "p \<in> set ps" and qin: "q \<in> set ps" using pq by simp_all
  have mp: "p_mid p = ''/m/0jbk''" using bspec [OF all pin] p by simp
  have mq: "p_mid q = ''/m/01yrx''" using bspec [OF all qin] q by simp
  have sp: "p_score p = 47 / 50" using bspec [OF all pin] p by (simp add: example_scores_def)
  have sq: "p_score q = 9 / 10" using bspec [OF all qin] q by (simp add: example_scores_def)
  have mids: "map p_mid ps = [''/m/0jbk'', ''/m/01yrx'']" by (simp add: pq mp mq)
  have scores: "map p_score ps = [47 / 50, 9 / 10]" by (simp add: pq sp sq)
  show ?thesis
    by (intro conjI exI [of _ ps])
       (rule example_load_flags lm_file example_ok example_len ps1 ps2 mids scores)+
qed

text \<open>
  Claim C7: every line the report prints has the form
  \<^verbatim>\<open>index: mid - display_name (score = value)\<close>: the class index in decimal, the label-map
  entry at that index, the dictionary's name for it (or \<^verbatim>\<open>unknown\<close>), and the score with
  exactly two decimals, a sign when it is negative, the digits being those of the score
  rounded to the nearest hundredth.
\<close>

theorem printed_line_form:
  "\<forall>line \<in> set (printed (fst (main_report lib fs FLAGS predictions_eval))).
     \<exists>labelmap label_dict idx w a b.
        LoadLabelMaps fs (flag_num_classes FLAGS) (flag_labelmap FLAGS) (flag_dict FLAGS)
          = ([], Inr (labelmap, label_dict))
      \<and> idx \<in> set (top_k (lib_argsort lib) (flag_n FLAGS) predictions_eval)
      \<and> idx < length labelmap \<and> idx < length predictions_eval
      \<and> a < 10 \<and> b < 10
      \<and> \<bar>of_nat (100 * w + 10 * a + b) / 100 - \<bar>predictions_eval ! idx\<bar>\<bar> \<le> 1 / 200
      \<and> line = str_nat idx @ '': '' @ labelmap ! idx @ '' - ''
                 @ (case label_dict (labelmap ! idx) of None \<Rightarrow> ''unknown'' | Some name \<Rightarrow> name)
                 @ '' (score = ''
                 @ (if predictions_eval ! idx < 0 then ''-'' else []) @ str_nat w @ ''.''
                 @ [digit a, digit b] @ '')''"
proof
  fix line
  assume line: "line \<in> set (printed (fst (main_report lib fs FLAGS predictions_eval)))"
  let ?t = "top_k (lib_argsort lib) (flag_n FLAGS) predictions_eval"
  obtain logged r where load:
    "LoadLabelMaps fs (flag_num_classes FLAGS) (flag_labelmap FLAGS) (flag_dict FLAGS) = (logged, r)"
    by (cases "LoadLabelMaps fs (flag_num_classes FLAGS) (flag_labelmap FLAGS) (flag_dict FLAGS)")
  note out = main_report_printed [OF load, of lib predictions_eval]
  show "\<exists>labelmap label_dict idx w a b.
        LoadLabelMaps fs (flag_num_classes FLAGS) (flag_labelmap FLAGS) (flag_dict FLAGS)
          = ([], Inr (labelmap, label_dict))
      \<and> idx \<in> set ?t
      \<and> idx < length labelmap \<and> idx < length predictions_eval
      \<and> a < 10 \<and> b < 10
      \<and> \<bar>of_nat (100 * w + 10 * a + b) / 100 - \<bar>predictions_eval ! idx\<bar>\<bar> \<le> 1 / 200
      \<and> line = str_nat idx @ '': '' @ labelmap ! idx @ '' - ''
                 @ (case label_dict (labelmap ! idx) of None \<Rightarrow> ''unknown'' | Some name \<Rightarrow> name)
                 @ '' (score = ''
                 @ (if predictions_eval ! idx < 0 then ''-'' else []) @ str_nat w @ ''.''
                 @ [digit a, digit b] @ '')''"
  proof (cases r)
    case (Inl e)
    with out line show ?thesis by simp
  next
    case (Inr pair)
    obtain labelmap label_dict where pair: "pair = (labelmap, label_dict)" by (cases pair)
    have load': "LoadLabelMaps fs (flag_num_classes FLAGS) (flag_labelmap FLAGS) (flag_dict FLAGS)
        = ([], Inr (labelmap, label_dict))"
      using load Inr pair LoadLabelMaps_returns(1) by blast
    from out line Inr pair obtain idx
      where idx: "idx \<in> set (takeWhile (\<lambda>idx. idx < length labelmap \<and> idx < length predictions_eval) ?t)"
        and l: "line = format_line (loop_body labelmap label_dict predictions_eval idx)"
      by auto
    have in_t: "idx \<in> set ?t" and r1: "idx < length labelmap" and r2: "idx < length predictions_eval"
      using set_takeWhileD [OF idx] by simp_all
    obtain w a b where a: "a < 10" and b: "b < 10"
      and close: "\<bar>of_nat (100 * w + 10 * a + b) / 100 - \<bar>predictions_eval ! idx\<bar>\<bar> \<le> 1 / 200"
      and fmt: "format_score (predictions_eval ! idx) =
          (if predictions_eval ! idx < 0 then ''-'' else []) @ str_nat w @ ''.'' @ [digit a, digit b]"
      using format_score_two_decimals [of "predictions_eval ! idx"] by (elim exE conjE)
    have l': "line = str_nat idx @ '': '' @ labelmap ! idx @ '' - ''
                 @ (case label_dict (labelmap ! idx) of None \<Rightarrow> ''unknown'' | Some name \<Rightarrow> name)
                 @ '' (score = ''
                 @ (if predictions_eval ! idx < 0 then ''-'' else []) @ str_nat w @ ''.''
                 @ [digit a, digit b] @ '')''"
      unfolding l format_line_def loop_body_def Let_def using fmt by simp
    show ?thesis
      by (intro exI conjI) (rule load' in_t r1 r2 a b close l')+
  qed
qed

theorem printed_line_form_witness:
  "''0: /m/0jbk - animal (score = 0.94)''
     \<in> set (printed (fst (main_report example_library example_files example_flags example_scores)))
   \<and> (\<exists>labelmap label_dict idx w a b.
        LoadLabelMaps example_files (flag_num_classes example_flags) (flag_labelmap example_flags)
            (flag_dict example_flags)
          = ([], Inr (labelmap, label_dict))
      \<and> idx \<in> set (top_k (lib_argsort example_library) (flag_n example_flags) example_scores)
      \<and> idx < length labelmap \<and> idx < length example_scores
      \<and> a < 10 \<and> b < 10
      \<and> \<bar>of_nat (100 * w + 10 * a + b) / 100 - \<bar>example_scores ! idx\<bar>\<bar> \<le> 1 / 200
      \<and> ''0: /m/0jbk - animal (score = 0.94)'' = str_nat idx @ '': '' @ labelmap ! idx @ '' - ''
                 @ (case label_dict (labelmap ! idx) of None \<Rightarrow> ''unknown'' | Some name \<Rightarrow> name)
                 @ '' (score = ''
                 @ (if example_scores ! idx < 0 then ''-'' else []) @ str_nat w @ ''.''
                 @ [digit a, digit b] @ '')'')"
proof -
  have mem: "''0: /m/0jbk - animal (score = 0.94)''
     \<in> set (printed (fst (main_report example_library example_files example_flags example_scores)))"
    by (simp add: example_report)
  show ?thesis
    by (rule conjI [OF mem printed_line_form [THEN bspec, OF mem]])
qed

text \<open>
  Claim C8: the report is deterministic. Two runs that are given the same score vector
  (one score per class), the same label-map contents, the same dictionary contents and the
  same \<open>n\<close> print the same lines, character for character, and both finish or both fail,
  whatever else differs between them: the paths of the two files, the rest of the file
  system, the other flags.
\<close>

theorem report_deterministic:
  assumes labelmap: "fs1 (flag_labelmap F1) = fs2 (flag_labelmap F2)"
    and dict: "fs1 (flag_dict F1) = fs2 (flag_dict F2)"
    and n: "flag_n F1 = flag_n F2"
    and len1: "int (length predictions_eval) = flag_num_classes F1"
    and len2: "int (length predictions_eval) = flag_num_classes F2"
  shows "printed (fst (main_report lib fs1 F1 predictions_eval))
           = printed (fst (main_report lib fs2 F2 predictions_eval))
       \<and> (snd (main_report lib fs1 F1 predictions_eval) = Inr ())
           = (snd (main_report lib fs2 F2 predictions_eval) = Inr ())"
proof (cases "fs2 (flag_labelmap F2)")
  case None
  with labelmap show ?thesis
    unfolding main_report_def LoadLabelMaps_def gfile_readlines_def by simp
next
  case (Some content)
  note lm = this
  show ?thesis
  proof (cases "int (length (readlines content)) = flag_num_classes F2")
    case False
    with lm labelmap len1 len2 show ?thesis
      unfolding main_report_def LoadLabelMaps_def gfile_readlines_def Let_def by simp
  next
    case True
    note count = this
    show ?thesis
    proof (cases "fs2 (flag_dict F2)")
      case None
      with lm labelmap dict count len1 len2 show ?thesis
        unfolding main_report_def LoadLabelMaps_def gfile_readlines_def Let_def by simp
    next
      case (Some dict_content)
      with lm labelmap dict count len1 len2 n show ?thesis
        unfolding main_report_def LoadLabelMaps_def gfile_readlines_def Let_def
        by (simp split: sum.splits prod.splits)
    qed
  qed
qed

theorem report_deterministic_witness:
  "example_files (flag_labelmap example_flags)
     = example_files_elsewhere (flag_labelmap example_flags_elsewhere)
   \<and> example_files (flag_dict example_flags)
     = example_files_elsewhere (flag_dict example_flags_elsewhere)
   \<and> flag_n example_flags = flag_n example_flags_elsewhere
   \<and> int (length example_scores) = flag_num_classes example_flags
   \<and> int (length example_scores) = flag_num_classes example_flags_elsewhere
   \<and> printed (fst (main_report example_library example_files_elsewhere example_flags_elsewhere
         example_scores))
     = [''0: /m/0jbk - animal (score = 0.94)'', ''2: /m/01yrx - unknown (score = 0.90)'']"
proof -
  have h1: "example_files (flag_labelmap example_flags)
      = example_files_elsewhere (flag_labelmap example_flags_elsewhere)"
    by (simp add: example_files_def example_flags_def example_files_elsewhere_def
        example_flags_elsewhere_def)
  have h2: "example_files (flag_dict example_flags)
      = example_files_elsewhere (flag_dict example_flags_elsewhere)"
    by (simp add: example_files_def example_flags_def example_files_elsewhere_def
        example_flags_elsewhere_def)
  have h3: "flag_n example_flags = flag_n example_flags_elsewhere"
    by (simp add: example_flags_def example_flags_elsewhere_def)
  have h5: "int (length example_scores) = flag_num_classes example_flags_elsewhere"
    by (simp add: example_scores_def example_flags_elsewhere_def)
  have "printed (fst (main_report example_library example_files example_flags example_scores))
      = printed (fst (main_report example_library example_files_elsewhere
          example_flags_elsewhere example_scores))"
    using report_deterministic [OF h1 h2 h3 example_len h5, of example_library]
    by (rule conjunct1)
  then have out: "printed (fst (main_report example_library example_files_elsewhere
        example_flags_elsewhere example_scores))
      = [''0: /m/0jbk - animal (score = 0.94)'', ''2: /m/01yrx - unknown (score = 0.90)'']"
    by (simp add: example_report)
  show ?thesis
    by (intro conjI) (rule h1 h2 h3 example_len h5 out)+
qed

section \<open>The claim about \<^verbatim>\<open>PreprocessImage\<close>\<close>

text \<open>
  Claim C9: \<^verbatim>\<open>PreprocessImage\<close> maps every pixel value \<open>v\<close> of the decoded and resized image,
  which lies between 0 and 255, to \<open>v / 127.5 - 1\<close>; the values of the tensor it returns lie
  between \<open>-1\<close> and \<open>1\<close>, \<open>0\<close> goes to \<open>-1\<close> and \<open>255\<close> to \<open>1\<close>, and the centre is \<open>127.5\<close>, not
  \<open>128\<close>. The value is not \<open>v / 127.5 - 1\<close> itself. The multiplication and the subtraction
  are \<^verbatim>\<open>float32\<close> operations and the factor is the \<^verbatim>\<open>float32\<close> nearest to \<open>1 / 127.5\<close>: on the
  pixel values \<open>0\<close>, \<open>255\<close> and \<open>51\<close> the script gives \<open>-1\<close>, \<open>1\<close> and \<open>-10066329 / 16777216\<close>, and
  \<open>51 / 127.5 - 1\<close> is \<open>-3 / 5\<close>.
\<close>

theorem PreprocessImage_pixel_51_rounded:
  "lib_decode_jpeg example_library ''jpeg'' = Some [0, 255, 51]
   \<and> PreprocessImage_ops example_library 299 ''jpeg'' = Inr [- 1, 1, - 10066329 / 16777216]
   \<and> (51::rat) / 127.5 - 1 = - 3 / 5
   \<and> normalize 51 \<noteq> 51 / 127.5 - 1"
proof -
  have d: "lib_decode_jpeg example_library ''jpeg'' = Some [0, 255, 51]"
    by (simp add: example_library_def)
  have r: "lib_crop_and_resize example_library 299 [0, 255, 51] = [0, 255, 51]"
    by (simp add: example_library_def)
  have "PreprocessImage_ops example_library 299 ''jpeg'' = Inr [- 1, 1, - 10066329 / 16777216]"
    by (simp add: PreprocessImage_ops_def d r normalize_0 normalize_255 normalize_51)
  moreover have "normalize 51 \<noteq> 51 / 127.5 - 1" unfolding normalize_51 by simp
  moreover have "(51::rat) / 127.5 - 1 = - 3 / 5" by simp
  ultimately show ?thesis using d by (intro conjI)
qed

text \<open>
  Claim C9, amended: \<^verbatim>\<open>PreprocessImage\<close> maps every pixel value \<open>v\<close> of the decoded and resized
  image, which lies between 0 and 255, to \<open>v / 127.5 - 1\<close> up to the rounding of \<^verbatim>\<open>float32\<close>
  arithmetic, an error of at most \<open>1 / 2 ^ 21\<close>. The values of the tensor it returns lie
  between \<open>-1\<close> and \<open>1\<close>, \<open>0\<close> goes to \<open>-1\<close> and \<open>255\<close> to \<open>1\<close>, exactly, and of \<open>127.5\<close> and \<open>128\<close>
  it is \<open>127.5\<close> that goes to \<open>0\<close>.
\<close>

theorem PreprocessImage_normalizes:
  assumes decoded: "lib_decode_jpeg lib img_data = Some img"
    and pixels: "\<forall>v \<in> set (lib_crop_and_resize lib image_size img). 0 \<le> v \<and> v \<le> 255"
  shows "PreprocessImage_ops lib image_size img_data
           = Inr (map normalize (lib_crop_and_resize lib image_size img))
       \<and> (\<forall>v \<in> set (lib_crop_and_resize lib image_size img).
             \<bar>normalize v - (v / 127.5 - 1)\<bar> \<le> 1 / 2 ^ 21
             \<and> - 1 \<le> normalize v \<and> normalize v \<le> 1)
       \<and> normalize 0 = - 1 \<and> normalize 255 = 1
       \<and> normalize 127.5 = 0 \<and> normalize 128 \<noteq> 0"
proof -
  have ops: "PreprocessImage_ops lib image_size img_data
      = Inr (map normalize (lib_crop_and_resize lib image_size img))"
    unfolding PreprocessImage_ops_def decoded by simp
  have each: "\<forall>v \<in> set (lib_crop_and_resize lib image_size img).
      \<bar>normalize v - (v / 127.5 - 1)\<bar> \<le> 1 / 2 ^ 21 \<and> - 1 \<le> normalize v \<and> normalize v \<le> 1"
  proof
    fix v
    assume "v \<in> set (lib_crop_and_resize lib image_size img)"
    with pixels have v: "0 \<le> v" "v \<le> 255" by auto
    from normalize_error [OF v] normalize_range [OF v]
    show "\<bar>normalize v - (v / 127.5 - 1)\<bar> \<le> 1 / 2 ^ 21 \<and> - 1 \<le> normalize v \<and> normalize v \<le> 1"
      by simp
  qed
  have n128: "normalize 128 \<noteq> 0" unfolding normalize_128 by simp
  show ?thesis
    by (intro conjI) (rule ops each normalize_0 normalize_255 normalize_centre n128)+
qed

theorem PreprocessImage_normalizes_witness:
  "lib_decode_jpeg example_library ''jpeg'' = Some [0, 255, 51]
   \<and> (0 \<le> (0::rat) \<and> (0::rat) \<le> 255) \<and> (0 \<le> (255::rat) \<and> (255::rat) \<le> 255)
   \<and> (0 \<le> (51::rat) \<and> (51::rat) \<le> 255)
   \<and> PreprocessImage_ops example_library 299 ''jpeg''
       = Inr [normalize 0, normalize 255, normalize 51]
   \<and> \<bar>normalize 51 - (51 / 127.5 - 1)\<bar> \<le> 1 / 2 ^ 21
   \<and> - 1 \<le> normalize 51 \<and> normalize 51 \<le> 1"
proof -
  have d: "lib_decode_jpeg example_library ''jpeg'' = Some [0, 255, 51]"
    by (simp add: example_library_def)
  have r: "lib_crop_and_resize example_library 299 [0, 255, 51] = [0, 255, 51]"
    by (simp add: example_library_def)
  have px: "\<forall>v \<in> set (lib_crop_and_resize example_library 299 [0, 255, 51]). 0 \<le> v \<and> v \<le> 255"
    unfolding r by simp
  note at = PreprocessImage_normalizes [OF d px]
  have a: "PreprocessImage_ops example_library 299 ''jpeg''
      = Inr [normalize 0, normalize 255, normalize 51]"
    using at [THEN conjunct1] unfolding r by simp
  have "51 \<in> set (lib_crop_and_resize example_library 299 [0, 255, 51])"
    unfolding r by simp
  note at51 = bspec [OF at [THEN conjunct2, THEN conjunct1] this]
  have b: "\<bar>normalize 51 - (51 / 127.5 - 1)\<bar> \<le> 1 / 2 ^ 21"
    by (rule at51 [THEN conjunct1])
  have c: "- 1 \<le> normalize 51"
    by (rule at51 [THEN conjunct2, THEN conjunct1])
  have e: "normalize 51 \<le> 1"
    by (rule at51 [THEN conjunct2, THEN conjunct2])
  have t: "(0 \<le> (0::rat) \<and> (0::rat) \<le> 255)" "(0 \<le> (255::rat) \<and> (255::rat) \<le> 255)"
    "(0 \<le> (51::rat) \<and> (51::rat) \<le> 255)" by simp_all
  show ?thesis
    by (intro conjI) (rule d t [THEN conjunct1] t [THEN conjunct2] a b c e)+
qed

section \<open>The claims about \<^verbatim>\<open>LoadLabelMaps\<close>\<close>

text \<open>
  Claim C10: a line of the dictionary file that contains no comma makes \<^verbatim>\<open>LoadLabelMaps\<close>
  raise \<^verbatim>\<open>IndexError\<close> at \<^verbatim>\<open>words[1]\<close>, with nothing logged, and \<^verbatim>\<open>LoadLabelMaps\<close> returns only
  when every line of the dictionary contains a comma. The dictionary is read once the
  label map has been read and has \<open>num_classes\<close> lines; for a call that reads it, both files
  being there, such a line makes the function raise \<^verbatim>\<open>IndexError\<close>, and the function returns
  exactly when the label map has \<open>num_classes\<close> lines and every line of the dictionary
  contains a comma.
\<close>

theorem LoadLabelMaps_line_without_comma:
  assumes labelmap: "fs labelmap_path = Some labelmap_content"
    and dict: "fs dict_path = Some dict_content"
  shows "(int (length (readlines labelmap_content)) = num_classes
            \<and> (\<exists>line \<in> set (readlines dict_content). CHR '','' \<notin> set line)
          \<longrightarrow> LoadLabelMaps fs num_classes labelmap_path dict_path = ([], Inl IndexError))
       \<and> ((\<exists>labelmap label_dict.
              LoadLabelMaps fs num_classes labelmap_path dict_path = ([], Inr (labelmap, label_dict)))
          = (int (length (readlines labelmap_content)) = num_classes
              \<and> (\<forall>line \<in> set (readlines dict_content). CHR '','' \<in> set line)))"
proof (cases "int (length (readlines labelmap_content)) = num_classes")
  case False
  then show ?thesis
    using LoadLabelMaps_mismatch [where fs = fs and labelmap_path = labelmap_path and dict_path = dict_path, OF labelmap False] by simp
next
  case True
  note load = LoadLabelMaps_match [where fs = fs and labelmap_path = labelmap_path and dict_path = dict_path, OF labelmap True, unfolded dict option.case]
  show ?thesis
  proof (cases "\<forall>line \<in> set (readlines dict_content). CHR '','' \<in> set line")
    case True
    from LoadLabelMaps_dict_returns [OF True, of Map.empty]
    obtain label_dict where "LoadLabelMaps_dict (readlines dict_content) Map.empty = Inr label_dict" ..
    with load True \<open>int (length (readlines labelmap_content)) = num_classes\<close>
    show ?thesis by auto
  next
    case False
    then have "\<exists>line \<in> set (readlines dict_content). CHR '','' \<notin> set line" by simp
    from LoadLabelMaps_dict_raises [OF this, of Map.empty] load False
    show ?thesis by auto
  qed
qed

theorem LoadLabelMaps_line_without_comma_witness:
  "example_files ''labelmap.txt'' = Some example_labelmap
   \<and> (example_files(''dict.csv'' \<mapsto> ''nocomma'')) ''dict.csv'' = Some ''nocomma''
   \<and> int (length (readlines example_labelmap)) = 3
   \<and> CHR '','' \<notin> set ''nocomma''
   \<and> LoadLabelMaps (example_files(''dict.csv'' \<mapsto> ''nocomma'')) 3 ''labelmap.txt'' ''dict.csv''
       = ([], Inl IndexError)"
proof -
  let ?fs = "example_files(''dict.csv'' \<mapsto> ''nocomma'')"
  have f1: "example_files ''labelmap.txt'' = Some example_labelmap"
    by (simp add: example_files_def)
  have f1': "?fs ''labelmap.txt'' = Some example_labelmap"
    by (simp add: example_files_def)
  have f2: "?fs ''dict.csv'' = Some ''nocomma''" by simp
  have n: "int (length (readlines example_labelmap)) = 3" by code_simp
  have l: "readlines ''nocomma'' = [''nocomma'']" by code_simp
  have c: "CHR '','' \<notin> set ''nocomma''" by simp
  have ex: "\<exists>line \<in> set (readlines ''nocomma''). CHR '','' \<notin> set line"
    unfolding l using c by simp
  have "LoadLabelMaps ?fs 3 ''labelmap.txt'' ''dict.csv'' = ([], Inl IndexError)"
    using LoadLabelMaps_line_without_comma [where fs = ?fs and labelmap_path = "''labelmap.txt''" and dict_path = "''dict.csv''" and num_classes = 3, OF f1' f2, THEN conjunct1] n ex by blast
  with f1 f2 n c show ?thesis by (intro conjI)
qed

text \<open>
  Claim C4: \<^verbatim>\<open>LoadLabelMaps\<close> exits with status 1, after the fatal log message, exactly when
  the number of lines of the label map differs from \<open>num_classes\<close>; and when the two are
  equal it returns. The second half fails: with equal counts and a dictionary line that
  has no comma the function raises \<^verbatim>\<open>IndexError\<close>.
\<close>

theorem LoadLabelMaps_equal_counts_IndexError:
  "int (length (readlines example_labelmap)) = 3
   \<and> LoadLabelMaps (example_files(''dict.csv'' \<mapsto> ''/m/0jbk animal'')) 3 ''labelmap.txt''
         ''dict.csv''
       = ([], Inl IndexError)"
proof -
  let ?fs = "example_files(''dict.csv'' \<mapsto> ''/m/0jbk animal'')"
  have f1: "?fs ''labelmap.txt'' = Some example_labelmap"
    by (simp add: example_files_def)
  have n: "int (length (readlines example_labelmap)) = 3" by code_simp
  have l: "readlines ''/m/0jbk animal'' = [''/m/0jbk animal'']" by code_simp
  have "LoadLabelMaps_dict (readlines ''/m/0jbk animal'') Map.empty = Inl IndexError"
    unfolding l by (simp add: Let_def length_split1)
  then have "LoadLabelMaps ?fs 3 ''labelmap.txt'' ''dict.csv'' = ([], Inl IndexError)"
    unfolding LoadLabelMaps_match [where fs = ?fs and labelmap_path = "''labelmap.txt''" and dict_path = "''dict.csv''", OF f1 n] by simp
  with n show ?thesis by (intro conjI)
qed

text \<open>
  Claim C4, amended: for a label map that can be read, \<^verbatim>\<open>LoadLabelMaps\<close> exits with status
  1 exactly when the number of its lines differs from \<open>num_classes\<close>, and then the fatal
  message is what it has logged; when the two are equal it returns the stripped lines and a
  dictionary, provided the dictionary file can be read and each of its lines contains a
  comma.
\<close>

theorem LoadLabelMaps_exit:
  assumes labelmap: "fs labelmap_path = Some labelmap_content"
  shows "((snd (LoadLabelMaps fs num_classes labelmap_path dict_path) = Inl (SysExit 1))
           = (int (length (readlines labelmap_content)) \<noteq> num_classes))
       \<and> (int (length (readlines labelmap_content)) \<noteq> num_classes \<longrightarrow>
            fst (LoadLabelMaps fs num_classes labelmap_path dict_path)
              = [LogFatal (labelmap_message labelmap_path (length (readlines labelmap_content))
                   num_classes)])
       \<and> (int (length (readlines labelmap_content)) = num_classes \<longrightarrow>
            (\<forall>dict_content. fs dict_path = Some dict_content
               \<longrightarrow> (\<forall>line \<in> set (readlines dict_content). CHR '','' \<in> set line)
               \<longrightarrow> (\<exists>label_dict. LoadLabelMaps fs num_classes labelmap_path dict_path
                      = ([], Inr (map rstrip (readlines labelmap_content), label_dict)))))"
proof (cases "int (length (readlines labelmap_content)) = num_classes")
  case False
  then show ?thesis
    using LoadLabelMaps_mismatch [where fs = fs and labelmap_path = labelmap_path and dict_path = dict_path, OF labelmap False] by simp
next
  case True
  note load = LoadLabelMaps_match [where fs = fs and labelmap_path = labelmap_path and dict_path = dict_path, OF labelmap True]
  have no_exit: "snd (LoadLabelMaps fs num_classes labelmap_path dict_path) \<noteq> Inl (SysExit 1)"
  proof (cases "fs dict_path")
    case None
    with load show ?thesis by simp
  next
    case (Some dict_content)
    show ?thesis
    proof (cases "\<forall>line \<in> set (readlines dict_content). CHR '','' \<in> set line")
      case True
      from LoadLabelMaps_dict_returns [OF True, of Map.empty] load Some
      show ?thesis by auto
    next
      case False
      then have "\<exists>line \<in> set (readlines dict_content). CHR '','' \<notin> set line" by simp
      from LoadLabelMaps_dict_raises [OF this, of Map.empty] load Some
      show ?thesis by simp
    qed
  qed
  have returns: "\<exists>label_dict. LoadLabelMaps fs num_classes labelmap_path dict_path
          = ([], Inr (map rstrip (readlines labelmap_content), label_dict))"
    if "fs dict_path = Some dict_content"
      and "\<forall>line \<in> set (readlines dict_content). CHR '','' \<in> set line" for dict_content
    using LoadLabelMaps_dict_returns [OF that(2), of Map.empty] load that(1) by auto
  from True no_exit returns show ?thesis by blast
qed

theorem LoadLabelMaps_exit_witness:
  "example_files ''labelmap.txt'' = Some example_labelmap
   \<and> length (readlines example_labelmap) = 3
   \<and> LoadLabelMaps example_files 3 ''labelmap.txt'' ''dict.csv''
       = ([], Inr ([''/m/0jbk'', ''/m/04rky'', ''/m/01yrx''],
                   [''/m/0jbk'' \<mapsto> ''animal'', ''/m/04rky'' \<mapsto> ''mammal'']))
   \<and> snd (LoadLabelMaps example_files 3 ''labelmap.txt'' ''dict.csv'') \<noteq> Inl (SysExit 1)
   \<and> snd (LoadLabelMaps example_files 6012 ''labelmap.txt'' ''dict.csv'') = Inl (SysExit 1)
   \<and> fst (LoadLabelMaps example_files 6012 ''labelmap.txt'' ''dict.csv'')
       = [LogFatal ''Label map loaded from labelmap.txt contains 3 lines while the number of classes is 6012'']"
proof -
  have f1: "example_files ''labelmap.txt'' = Some example_labelmap"
    by (simp add: example_files_def)
  have n: "length (readlines example_labelmap) = 3" by code_simp
  have m: "labelmap_message ''labelmap.txt'' 3 6012
      = ''Label map loaded from labelmap.txt contains 3 lines while the number of classes is 6012''"
    by (simp add: labelmap_message_def str_int_def str_nat.simps digit_def)
  note at3 = LoadLabelMaps_exit [where fs = example_files and labelmap_path = "''labelmap.txt''" and dict_path = "''dict.csv''" and num_classes = 3, OF f1]
  note at6012 = LoadLabelMaps_exit [where fs = example_files and labelmap_path = "''labelmap.txt''" and dict_path = "''dict.csv''" and num_classes = 6012, OF f1]
  have a: "snd (LoadLabelMaps example_files 3 ''labelmap.txt'' ''dict.csv'') \<noteq> Inl (SysExit 1)"
    using at3 [THEN conjunct1] n by simp
  have b: "snd (LoadLabelMaps example_files 6012 ''labelmap.txt'' ''dict.csv'') = Inl (SysExit 1)"
    using at6012 [THEN conjunct1] n by simp
  have c: "fst (LoadLabelMaps example_files 6012 ''labelmap.txt'' ''dict.csv'')
      = [LogFatal ''Label map loaded from labelmap.txt contains 3 lines while the number of classes is 6012'']"
    using at6012 [THEN conjunct2, THEN conjunct1] n m by simp
  show ?thesis
    by (intro conjI) (rule f1 n example_load a b c)+
qed

section \<open>The claim about \<^verbatim>\<open>main\<close>\<close>

text \<open>
  Claim C3: when the checkpoint, the image or the label map is missing or malformed, the
  program aborts with a logged message and runs no inference and prints no prediction. The
  script does not do all of this. It loads the label map only after the inference pass
  (line 141 comes after line 138), so a label map with the wrong number of lines, or none,
  is found out after inference has run; and it has no message of its own for a missing
  label map or for a checkpoint that cannot be restored: these end in the library's
  exception. Nor does the message about the checkpoint stop the run: what decides is
  whether \<^verbatim>\<open>saver.restore\<close> succeeds (\<open>main_checkpoint_prefix\<close>).
\<close>

theorem main_bad_labelmap_after_inference:
  "main example_library (example_files(''labelmap.txt'' \<mapsto> ''/m/0jbk'')) example_flags
     = ([RunInference,
         LogFatal ''Label map loaded from labelmap.txt contains 1 lines while the number of classes is 3''],
        Inl (SysExit 1))
   \<and> main example_library (example_files(''labelmap.txt'' := None)) example_flags
     = ([RunInference], Inl (NotFoundError ''labelmap.txt''))
   \<and> main example_library (example_files(''model.ckpt'' \<mapsto> ''garbage'')) example_flags
     = ([], Inl RestoreError)"
proof (intro conjI)
  let ?fa = "example_files(''labelmap.txt'' \<mapsto> ''/m/0jbk'')"
  have a1: "?fa ''cat.jpg'' = Some ''jpeg''" by (simp add: example_files_def)
  have a2: "?fa ''model.ckpt'' = Some ''weights''" by (simp add: example_files_def)
  have a3: "?fa (flag_labelmap example_flags) = Some ''/m/0jbk''"
    by (simp add: example_flags_def)
  have l: "readlines ''/m/0jbk'' = [''/m/0jbk'']" by code_simp
  have a4: "int (length (readlines ''/m/0jbk'')) \<noteq> flag_num_classes example_flags"
    unfolding l by (simp add: example_flags_def)
  have m: "labelmap_message ''labelmap.txt'' 1 3
      = ''Label map loaded from labelmap.txt contains 1 lines while the number of classes is 3''"
    by code_simp
  have "main example_library ?fa example_flags
     = ([RunInference,
         LogFatal (labelmap_message (flag_labelmap example_flags)
           (length (readlines ''/m/0jbk'')) (flag_num_classes example_flags))],
        Inl (SysExit 1))"
    unfolding example_main [OF a1 a2]
      main_report_labelmap_mismatch [where fs = ?fa and FLAGS = example_flags, OF a3 a4]
    by simp
  then show "main example_library ?fa example_flags
     = ([RunInference,
         LogFatal ''Label map loaded from labelmap.txt contains 1 lines while the number of classes is 3''],
        Inl (SysExit 1))"
    unfolding l using m by (simp add: example_flags_def)
next
  let ?fb = "example_files(''labelmap.txt'' := None)"
  have b1: "?fb ''cat.jpg'' = Some ''jpeg''" by (simp add: example_files_def)
  have b2: "?fb ''model.ckpt'' = Some ''weights''" by (simp add: example_files_def)
  have b3: "?fb (flag_labelmap example_flags) = None" by (simp add: example_flags_def)
  show "main example_library ?fb example_flags
     = ([RunInference], Inl (NotFoundError ''labelmap.txt''))"
    unfolding example_main [OF b1 b2]
      main_report_labelmap_missing [where fs = ?fb and FLAGS = example_flags, OF b3]
    by (simp add: example_flags_def)
next
  let ?fc = "example_files(''model.ckpt'' \<mapsto> ''garbage'')"
  have c1: "?fc (flag_image_path example_flags) = Some ''jpeg''"
    by (simp add: example_files_def example_flags_def)
  have c2: "lib_restore example_library ?fc (flag_checkpoint example_flags) = None"
    by (simp add: example_library_def example_flags_def)
  have c3: "checkpoint_check ?fc (flag_checkpoint example_flags) = []"
    by (simp add: checkpoint_check_def example_flags_def)
  show "main example_library ?fc example_flags = ([], Inl RestoreError)"
    unfolding main_restore_fails [where lib = example_library and fs = ?fc
        and FLAGS = example_flags, OF c1 c2] c3 ..
qed

text \<open>
  Claim C3, amended: when the checkpoint cannot be restored, the image file is missing or
  cannot be decoded, or the label map is missing or has a number of lines that is not
  \<open>num_classes\<close>, the program ends abnormally and prints no prediction. When there is no file
  at the checkpoint path or the image file is missing it has logged a fatal message; when
  the checkpoint cannot be restored or the image file is missing, it has not run inference.
  When only the label map has the wrong number of lines, the program runs inference, then
  logs the fatal message and exits with status 1.
\<close>

theorem main_bad_input:
  "((lib_restore lib fs (flag_checkpoint FLAGS) = None
       \<or> fs (flag_image_path FLAGS) = None
       \<or> (\<exists>img_data. fs (flag_image_path FLAGS) = Some img_data
              \<and> lib_decode_jpeg lib img_data = None)
       \<or> fs (flag_labelmap FLAGS) = None
       \<or> (\<exists>content. fs (flag_labelmap FLAGS) = Some content
              \<and> int (length (readlines content)) \<noteq> flag_num_classes FLAGS))
      \<longrightarrow> isl (snd (main lib fs FLAGS)) \<and> printed (fst (main lib fs FLAGS)) = [])
   \<and> (fs (flag_checkpoint FLAGS) = None \<or> fs (flag_image_path FLAGS) = None
      \<longrightarrow> (\<exists>msg. LogFatal msg \<in> set (fst (main lib fs FLAGS))))
   \<and> (lib_restore lib fs (flag_checkpoint FLAGS) = None \<or> fs (flag_image_path FLAGS) = None
      \<longrightarrow> RunInference \<notin> set (fst (main lib fs FLAGS)))
   \<and> (lib_restore lib fs (flag_checkpoint FLAGS) = Some the_variables
       \<and> fs (flag_image_path FLAGS) = Some the_img_data
       \<and> lib_decode_jpeg lib the_img_data = Some the_img
       \<and> fs (flag_labelmap FLAGS) = Some the_content
       \<and> int (length (readlines the_content)) \<noteq> flag_num_classes FLAGS
      \<longrightarrow> main lib fs FLAGS =
            (checkpoint_check fs (flag_checkpoint FLAGS)
               @ [RunInference,
                  LogFatal (labelmap_message (flag_labelmap FLAGS) (length (readlines the_content))
                    (flag_num_classes FLAGS))],
             Inl (SysExit 1)))"
proof (intro conjI impI)
  assume bad: "lib_restore lib fs (flag_checkpoint FLAGS) = None
       \<or> fs (flag_image_path FLAGS) = None
       \<or> (\<exists>img_data. fs (flag_image_path FLAGS) = Some img_data
              \<and> lib_decode_jpeg lib img_data = None)
       \<or> fs (flag_labelmap FLAGS) = None
       \<or> (\<exists>content. fs (flag_labelmap FLAGS) = Some content
              \<and> int (length (readlines content)) \<noteq> flag_num_classes FLAGS)"
  have "isl (snd (main lib fs FLAGS)) \<and> printed (fst (main lib fs FLAGS)) = []"
  proof (cases rule: main_cases [where lib = lib and fs = fs and FLAGS = FLAGS])
    case early
    then show ?thesis by simp
  next
    case (decode img_data variables)
    then show ?thesis by (simp add: printed_append checkpoint_check_quiet)
  next
    case (report img_data variables img arr)
    from bad report(2-4) have "fs (flag_labelmap FLAGS) = None
        \<or> (\<exists>content. fs (flag_labelmap FLAGS) = Some content
              \<and> int (length (readlines content)) \<noteq> flag_num_classes FLAGS)"
      by auto
    then show ?thesis
    proof (elim disjE exE conjE)
      assume "fs (flag_labelmap FLAGS) = None"
      from main_top_n_labelmap_missing [where fs = fs and FLAGS = FLAGS, OF this, of lib arr]
      show ?thesis unfolding report(1) by (simp add: printed_append checkpoint_check_quiet)
    next
      fix content
      assume "fs (flag_labelmap FLAGS) = Some content"
        and "int (length (readlines content)) \<noteq> flag_num_classes FLAGS"
      from main_top_n_labelmap_mismatch [where fs = fs and FLAGS = FLAGS, OF this, of lib arr]
      show ?thesis unfolding report(1) by (simp add: printed_append checkpoint_check_quiet)
    qed
  qed
  then show "isl (snd (main lib fs FLAGS))" and "printed (fst (main lib fs FLAGS)) = []"
    by simp_all
next
  assume missing: "fs (flag_checkpoint FLAGS) = None \<or> fs (flag_image_path FLAGS) = None"
  show "\<exists>msg. LogFatal msg \<in> set (fst (main lib fs FLAGS))"
  proof (cases "fs (flag_image_path FLAGS)")
    case None
    from main_image_missing [where fs = fs and FLAGS = FLAGS and lib = lib, OF None]
    have "LogFatal (''Input image does not exist '' @ flag_image_path FLAGS)
        \<in> set (fst (main lib fs FLAGS))"
      by simp
    then show ?thesis ..
  next
    case (Some img_data)
    with missing have none: "fs (flag_checkpoint FLAGS) = None" by simp
    then have c: "checkpoint_check fs (flag_checkpoint FLAGS)
        = [LogFatal (checkpoint_message (flag_checkpoint FLAGS))]"
      unfolding checkpoint_check_def by simp
    have "LogFatal (checkpoint_message (flag_checkpoint FLAGS)) \<in> set (fst (main lib fs FLAGS))"
    proof (cases rule: main_cases [where lib = lib and fs = fs and FLAGS = FLAGS])
      case early
      from early(4) Some have r: "lib_restore lib fs (flag_checkpoint FLAGS) = None" by simp
      show ?thesis
        unfolding main_restore_fails [where fs = fs and FLAGS = FLAGS and lib = lib, OF Some r] c
        by simp
    next
      case (decode img_data variables)
      show ?thesis unfolding decode(1) c by simp
    next
      case (report img_data variables img arr)
      show ?thesis unfolding report(1) c by simp
    qed
    then show ?thesis ..
  qed
next
  assume before: "lib_restore lib fs (flag_checkpoint FLAGS) = None
       \<or> fs (flag_image_path FLAGS) = None"
  show "RunInference \<notin> set (fst (main lib fs FLAGS))"
  proof (cases rule: main_cases [where lib = lib and fs = fs and FLAGS = FLAGS])
    case early
    then show ?thesis by simp
  next
    case (decode img_data variables)
    with before show ?thesis by auto
  next
    case (report img_data variables img arr)
    with before show ?thesis by auto
  qed
next
  assume fine: "lib_restore lib fs (flag_checkpoint FLAGS) = Some the_variables
       \<and> fs (flag_image_path FLAGS) = Some the_img_data
       \<and> lib_decode_jpeg lib the_img_data = Some the_img
       \<and> fs (flag_labelmap FLAGS) = Some the_content
       \<and> int (length (readlines the_content)) \<noteq> flag_num_classes FLAGS"
  then have r: "lib_restore lib fs (flag_checkpoint FLAGS) = Some the_variables"
    and i: "fs (flag_image_path FLAGS) = Some the_img_data"
    and d: "lib_decode_jpeg lib the_img_data = Some the_img"
    and l: "fs (flag_labelmap FLAGS) = Some the_content"
    and n: "int (length (readlines the_content)) \<noteq> flag_num_classes FLAGS"
    by simp_all
  show "main lib fs FLAGS =
            (checkpoint_check fs (flag_checkpoint FLAGS)
               @ [RunInference,
                  LogFatal (labelmap_message (flag_labelmap FLAGS) (length (readlines the_content))
                    (flag_num_classes FLAGS))],
             Inl (SysExit 1))"
    unfolding main_infers [where fs = fs and FLAGS = FLAGS and lib = lib, OF i r d]
      main_top_n_labelmap_mismatch [where fs = fs and FLAGS = FLAGS, OF l n]
    by simp
qed

theorem main_bad_input_witness:
  "lib_restore example_library (example_files(''model.ckpt'' := None)) (flag_checkpoint example_flags)
     = None
   \<and> (example_files(''model.ckpt'' := None)) (flag_checkpoint example_flags) = None
   \<and> isl (snd (main example_library (example_files(''model.ckpt'' := None)) example_flags))
   \<and> printed (fst (main example_library (example_files(''model.ckpt'' := None)) example_flags)) = []
   \<and> (\<exists>msg. LogFatal msg
         \<in> set (fst (main example_library (example_files(''model.ckpt'' := None)) example_flags)))
   \<and> RunInference
         \<notin> set (fst (main example_library (example_files(''model.ckpt'' := None)) example_flags))
   \<and> lib_restore example_library (example_files(''labelmap.txt'' \<mapsto> ''/m/0jbk''))
         (flag_checkpoint example_flags)
        = Some ''weights''
   \<and> (example_files(''labelmap.txt'' \<mapsto> ''/m/0jbk'')) (flag_image_path example_flags)
        = Some ''jpeg''
   \<and> lib_decode_jpeg example_library ''jpeg'' = Some [0, 255, 51]
   \<and> (example_files(''labelmap.txt'' \<mapsto> ''/m/0jbk'')) (flag_labelmap example_flags)
        = Some ''/m/0jbk''
   \<and> int (length (readlines ''/m/0jbk'')) \<noteq> flag_num_classes example_flags
   \<and> main example_library (example_files(''labelmap.txt'' \<mapsto> ''/m/0jbk'')) example_flags
        = (checkpoint_check (example_files(''labelmap.txt'' \<mapsto> ''/m/0jbk''))
             (flag_checkpoint example_flags)
             @ [RunInference,
                LogFatal (labelmap_message (flag_labelmap example_flags)
                  (length (readlines ''/m/0jbk'')) (flag_num_classes example_flags))],
           Inl (SysExit 1))"
proof -
  let ?fs1 = "example_files(''model.ckpt'' := None)"
  let ?fs2 = "example_files(''labelmap.txt'' \<mapsto> ''/m/0jbk'')"
  note at1 = main_bad_input [where lib = example_library and fs = ?fs1 and FLAGS = example_flags]
  note at2 = main_bad_input [where lib = example_library and fs = ?fs2 and FLAGS = example_flags
      and the_variables = "''weights''" and the_img_data = "''jpeg''" and the_img = "[0, 255, 51]"
      and the_content = "''/m/0jbk''"]
  have h: "?fs1 (flag_checkpoint example_flags) = None"
    by (simp add: example_flags_def)
  have g: "lib_restore example_library ?fs1 (flag_checkpoint example_flags) = None"
    by (simp add: example_library_def example_flags_def)
  have a: "isl (snd (main example_library ?fs1 example_flags))
      \<and> printed (fst (main example_library ?fs1 example_flags)) = []"
    by (rule at1 [THEN conjunct1, THEN mp, OF disjI1, OF g])
  have b: "\<exists>msg. LogFatal msg \<in> set (fst (main example_library ?fs1 example_flags))"
    by (rule at1 [THEN conjunct2, THEN conjunct1, THEN mp, OF disjI1, OF h])
  have c: "RunInference \<notin> set (fst (main example_library ?fs1 example_flags))"
    by (rule at1 [THEN conjunct2, THEN conjunct2, THEN conjunct1, THEN mp, OF disjI1, OF g])
  have d1: "lib_restore example_library ?fs2 (flag_checkpoint example_flags) = Some ''weights''"
    by (simp add: example_library_def example_flags_def example_files_def)
  have d3: "?fs2 (flag_image_path example_flags) = Some ''jpeg''"
    by (simp add: example_flags_def example_files_def)
  have d4: "lib_decode_jpeg example_library ''jpeg'' = Some [0, 255, 51]"
    by (simp add: example_library_def)
  have d5: "?fs2 (flag_labelmap example_flags) = Some ''/m/0jbk''"
    by (simp add: example_flags_def)
  have l: "readlines ''/m/0jbk'' = [''/m/0jbk'']" by code_simp
  have d6: "int (length (readlines ''/m/0jbk'')) \<noteq> flag_num_classes example_flags"
    unfolding l by (simp add: example_flags_def)
  have d: "main example_library ?fs2 example_flags
        = (checkpoint_check ?fs2 (flag_checkpoint example_flags)
             @ [RunInference,
                LogFatal (labelmap_message (flag_labelmap example_flags)
                  (length (readlines ''/m/0jbk'')) (flag_num_classes example_flags))],
           Inl (SysExit 1))"
    by (rule at2 [THEN conjunct2, THEN conjunct2, THEN conjunct2, THEN mp])
       (intro conjI d1 d3 d4 d5 d6)
  show ?thesis
    by (intro conjI) (rule g h a [THEN conjunct1] a [THEN conjunct2] b c d1 d3 d4 d5 d6 d)+
qed

end
